theory Spec2Isabelle
  imports Main "HOL-Library.Word"
begin

section \<open>The executive I/O completion object (io/iomgr/complete.c)\<close>

text \<open>
  The embedding follows complete.c function by function. Kernel memory is an explicit
  store from addresses to objects, so that pointer identity of packets is visible.
  A routine returns \<open>None\<close> where the C code would dereference a pointer at which no
  object of the expected kind lives (undefined behaviour); every other outcome,
  including every error status, is a value.
\<close>

subsection \<open>Scalar types and status codes\<close>

type_synonym addr = nat
type_synonym HANDLE = nat
type_synonym NTSTATUS = "32 word"
type_synonym ULONG = "32 word"

definition STATUS_SUCCESS :: NTSTATUS where
  "STATUS_SUCCESS = 0x00000000"

definition STATUS_USER_APC :: NTSTATUS where
  "STATUS_USER_APC = 0x000000C0"

definition STATUS_TIMEOUT :: NTSTATUS where
  "STATUS_TIMEOUT = 0x00000102"

definition STATUS_INVALID_INFO_CLASS :: NTSTATUS where
  "STATUS_INVALID_INFO_CLASS = 0xC0000003"

definition STATUS_INFO_LENGTH_MISMATCH :: NTSTATUS where
  "STATUS_INFO_LENGTH_MISMATCH = 0xC0000004"

definition STATUS_INVALID_HANDLE :: NTSTATUS where
  "STATUS_INVALID_HANDLE = 0xC0000008"

definition STATUS_INSUFFICIENT_RESOURCES :: NTSTATUS where
  "STATUS_INSUFFICIENT_RESOURCES = 0xC000009A"

text \<open>\<open>NT_SUCCESS(Status)\<close>: the status, read as a signed 32-bit value, is not negative.\<close>

definition NT_SUCCESS :: "NTSTATUS \<Rightarrow> bool" where
  "NT_SUCCESS st = (0 \<le> sint st)"

datatype KPROCESSOR_MODE = KernelMode | UserMode

subsection \<open>Completion entries\<close>

text \<open>
  The packet type is the tag shared by both representations of a completion entry: an
  IRP queued to a port carries \<open>IopCompletionPacketIrp\<close> in the overlay that a
  mini packet uses for its \<open>PacketType\<close> field.
\<close>

datatype IOP_COMPLETION_PACKET_TYPE =
  IopCompletionPacketIrp | IopCompletionPacketMini | IopCompletionPacketQuota

record IOP_MINI_COMPLETION_PACKET =
  PacketType :: IOP_COMPLETION_PACKET_TYPE
  KeyContext :: nat
  ApcContext :: nat
  IoStatus :: NTSTATUS
  IoStatusInformation :: nat

record IO_STATUS_BLOCK =
  Status :: NTSTATUS
  Information :: nat

text \<open>The fields of an IRP that complete.c reads.\<close>

record IRP =
  UserApcContext :: nat
  CompletionKey :: nat
  Irp_IoStatus :: IO_STATUS_BLOCK

datatype object = IrpObject IRP | MiniObject IOP_MINI_COMPLETION_PACKET

text \<open>
  \<open>CONTAINING_RECORD(Entry, IOP_MINI_COMPLETION_PACKET, ListEntry)->PacketType\<close>:
  the tag read through the mini packet view of an entry.
\<close>

fun PacketType_of :: "object \<Rightarrow> IOP_COMPLETION_PACKET_TYPE" where
  "PacketType_of (IrpObject irp) = IopCompletionPacketIrp"
| "PacketType_of (MiniObject m) = PacketType m"

text \<open>\<open>CONTAINING_RECORD(Entry, IRP, Tail.Overlay.ListEntry)\<close>: defined on an IRP only.\<close>

fun as_irp :: "object \<Rightarrow> IRP option" where
  "as_irp (IrpObject irp) = Some irp"
| "as_irp (MiniObject m) = None"

fun as_mini :: "object \<Rightarrow> IOP_MINI_COMPLETION_PACKET option" where
  "as_mini (MiniObject m) = Some m"
| "as_mini (IrpObject irp) = None"

text \<open>
  An object that can be an entry of a port: an IRP, or a mini packet whose type is not
  the one that marks an IRP.
\<close>

fun valid_entry :: "object \<Rightarrow> bool" where
  "valid_entry (IrpObject irp) = True"
| "valid_entry (MiniObject m) = (PacketType m \<noteq> IopCompletionPacketIrp)"

subsection \<open>Lookaside lists, queues and the kernel state\<close>

text \<open>
  A lookaside list: the S-list of cached blocks (head first), its depth limit and its
  counters. The counters are ULONG and wrap.
\<close>

record GENERAL_LOOKASIDE =
  ListHead :: "addr list"
  Depth :: nat
  TotalAllocates :: ULONG
  AllocateMisses :: ULONG
  TotalFrees :: ULONG
  FreeMisses :: ULONG

text \<open>
  A queue object: the pending entries in arrival order, the number of threads active
  against the queue and the target maximum of concurrently active threads.
\<close>

record KQUEUE =
  EntryListHead :: "addr list"
  CurrentCount :: nat
  MaximumCount :: nat

text \<open>What the routines do to their collaborators, in order.\<close>

datatype event =
  QuotaCharged addr
| QuotaReturned addr
| PoolFreed addr
| IrpFreed addr
| Referenced addr
| Dereferenced addr

text \<open>Values stored through the caller's output pointers.\<close>

datatype uval =
  PointerValue nat
| StatusBlockValue IO_STATUS_BLOCK
| UlongValue ULONG
| HandleValue HANDLE

text \<open>
  The state: kernel objects by address; the per processor (\<open>P\<close>) and system (\<open>L\<close>)
  lookaside lists of the current processor for completion packets; the pool blocks
  that carry a quota charge; the event log; the queue objects by address; the handle
  table; the previous mode; and the caller's address space (which addresses fail a
  probe and with which exception code, which addresses can be written, and the values
  written so far).
\<close>

record kernel =
  Objects :: "addr \<rightharpoonup> object"
  LookasideP :: GENERAL_LOOKASIDE
  LookasideL :: GENERAL_LOOKASIDE
  Charged :: "addr set"
  Log :: "event list"
  Queues :: "addr \<rightharpoonup> KQUEUE"
  HandleTable :: "HANDLE \<rightharpoonup> addr"
  PreviousMode :: KPROCESSOR_MODE
  ProbeFault :: "addr \<Rightarrow> NTSTATUS option"
  Writable :: "addr \<Rightarrow> bool"
  UserMem :: "addr \<rightharpoonup> uval"

subsection \<open>Collaborators that are not in complete.c\<close>

text \<open>
  Modelled from the spec: \<open>InterlockedPopEntrySList\<close>, \<open>InterlockedPushEntrySList\<close> and
  \<open>ExQueryDepthSList\<close> are not in complete.c. A lookaside tier is a stack with
  push, pop and depth: pop takes the most recently pushed block or yields NULL on an
  empty list.
\<close>

definition InterlockedPopEntrySList :: "addr list \<Rightarrow> addr option \<times> addr list" where
  "InterlockedPopEntrySList h = (case h of [] \<Rightarrow> (None, []) | a # r \<Rightarrow> (Some a, r))"

definition InterlockedPushEntrySList :: "addr list \<Rightarrow> addr \<Rightarrow> addr list" where
  "InterlockedPushEntrySList h a = a # h"

definition ExQueryDepthSList :: "addr list \<Rightarrow> nat" where
  "ExQueryDepthSList h = length h"

text \<open>
  Modelled from the spec: the pool allocator is not in complete.c. The argument
  \<open>pool\<close> is the block the general heap has for this request, \<open>None\<close> when it has
  none. \<open>ExAllocatePoolWithQuotaTag\<close> charges quota for the block against the caller
  and raises instead of returning NULL (its result \<open>None\<close> stands for the raised
  exception); \<open>ExAllocatePoolWithTagPriority\<close> charges nothing and returns NULL on
  failure.
\<close>

definition ExAllocatePoolWithQuotaTag :: "kernel \<Rightarrow> addr option \<Rightarrow> addr option \<times> kernel" where
  "ExAllocatePoolWithQuotaTag s pool =
     (case pool of
        None \<Rightarrow> (None, s)
      | Some a \<Rightarrow> (Some a, s\<lparr>Charged := insert a (Charged s), Log := Log s @ [QuotaCharged a]\<rparr>))"

definition ExAllocatePoolWithTagPriority :: "kernel \<Rightarrow> addr option \<Rightarrow> addr option \<times> kernel" where
  "ExAllocatePoolWithTagPriority s pool = (pool, s)"

text \<open>
  Modelled from the spec: \<open>ExReturnPoolQuota\<close> and \<open>ExFreePool\<close> are not in
  complete.c. Quota is debited on allocation and credited on release:
  \<open>ExReturnPoolQuota\<close> credits the charge a block carries and leaves the block
  allocated and uncharged; \<open>ExFreePool\<close> releases the block to the general heap,
  reversing first the quota charge the block still carries.
\<close>

definition ExReturnPoolQuota :: "kernel \<Rightarrow> addr \<Rightarrow> kernel" where
  "ExReturnPoolQuota s a =
     (if a \<in> Charged s
      then s\<lparr>Charged := Charged s - {a}, Log := Log s @ [QuotaReturned a]\<rparr>
      else s)"

definition ExFreePool :: "kernel \<Rightarrow> addr \<Rightarrow> kernel" where
  "ExFreePool s a =
     (let s1 = ExReturnPoolQuota s a
      in s1\<lparr>Objects := (Objects s1)(a := None), Log := Log s1 @ [PoolFreed a]\<rparr>)"

text \<open>
  Modelled from the spec: \<open>IoFreeIrp\<close> is not in complete.c. Freeing a request
  object is the collaborator's operation: the IRP is gone afterwards.
\<close>

definition IoFreeIrp :: "kernel \<Rightarrow> addr \<Rightarrow> kernel" where
  "IoFreeIrp s a = s\<lparr>Objects := (Objects s)(a := None), Log := Log s @ [IrpFreed a]\<rparr>"

text \<open>
  Modelled from the spec: \<open>KeInsertQueue\<close> is not in complete.c. Insert always
  succeeds and appends to the tail of the FIFO list. \<open>None\<close>: no queue at the address.
\<close>

definition KeInsertQueue :: "kernel \<Rightarrow> addr \<Rightarrow> addr \<Rightarrow> kernel option" where
  "KeInsertQueue s q e =
     (case Queues s q of
        None \<Rightarrow> None
      | Some k \<Rightarrow> Some (s\<lparr>Queues := (Queues s)(q \<mapsto> k\<lparr>EntryListHead := EntryListHead k @ [e]\<rparr>)\<rparr>))"

subsection \<open>IopFreeMiniPacket\<close>

text \<open>
  The packet goes to the per processor list if that list is below its depth, else to
  the system list if that one is below its depth, else to pool. Before a push the
  quota is returned if the packet is of type \<open>IopCompletionPacketQuota\<close>. A block on a
  lookaside list is a list node and no longer a packet.
\<close>

definition push_packet :: "GENERAL_LOOKASIDE \<Rightarrow> addr \<Rightarrow> GENERAL_LOOKASIDE" where
  "push_packet la p = la\<lparr>ListHead := InterlockedPushEntrySList (ListHead la) p\<rparr>"

definition return_quota_if_charged :: "kernel \<Rightarrow> addr \<Rightarrow> kernel option" where
  "return_quota_if_charged s p =
     (case Objects s p of
        None \<Rightarrow> None
      | Some ob \<Rightarrow>
          (case as_mini ob of
             None \<Rightarrow> None
           | Some m \<Rightarrow>
               Some (if PacketType m = IopCompletionPacketQuota then ExReturnPoolQuota s p else s)))"

definition IopFreeMiniPacket :: "kernel \<Rightarrow> addr \<Rightarrow> kernel option" where
  "IopFreeMiniPacket s MiniPacket =
     (let s1 = s\<lparr>LookasideP := (LookasideP s)\<lparr>TotalFrees := TotalFrees (LookasideP s) + 1\<rparr>\<rparr>
      in if ExQueryDepthSList (ListHead (LookasideP s1)) \<ge> Depth (LookasideP s1)
         then
           (let s2 = s1\<lparr>LookasideP := (LookasideP s1)\<lparr>FreeMisses := FreeMisses (LookasideP s1) + 1\<rparr>\<rparr>;
                s3 = s2\<lparr>LookasideL := (LookasideL s2)\<lparr>TotalFrees := TotalFrees (LookasideL s2) + 1\<rparr>\<rparr>
            in if ExQueryDepthSList (ListHead (LookasideL s3)) \<ge> Depth (LookasideL s3)
               then
                 (let s4 = s3\<lparr>LookasideL := (LookasideL s3)\<lparr>FreeMisses := FreeMisses (LookasideL s3) + 1\<rparr>\<rparr>
                  in Some (ExFreePool s4 MiniPacket))
               else
                 (case return_quota_if_charged s3 MiniPacket of
                    None \<Rightarrow> None
                  | Some s4 \<Rightarrow>
                      Some (s4\<lparr>LookasideL := push_packet (LookasideL s4) MiniPacket,
                               Objects := (Objects s4)(MiniPacket := None)\<rparr>)))
         else
           (case return_quota_if_charged s1 MiniPacket of
              None \<Rightarrow> None
            | Some s2 \<Rightarrow>
                Some (s2\<lparr>LookasideP := push_packet (LookasideP s2) MiniPacket,
                         Objects := (Objects s2)(MiniPacket := None)\<rparr>)))"

subsection \<open>IoSetIoCompletion\<close>

text \<open>
  Lines 374 to 403: the packet comes from the per processor list, else from the
  system list, else from pool, with quota charged if \<open>Quota\<close> is set. The result is
  the packet pointer (\<open>None\<close> for NULL), the packet type chosen and the new state.
\<close>

definition IoSetIoCompletion_allocate ::
  "kernel \<Rightarrow> bool \<Rightarrow> addr option \<Rightarrow> addr option \<times> IOP_COMPLETION_PACKET_TYPE \<times> kernel" where
  "IoSetIoCompletion_allocate s Quota pool =
     (let s1 = s\<lparr>LookasideP := (LookasideP s)\<lparr>TotalAllocates := TotalAllocates (LookasideP s) + 1\<rparr>\<rparr>;
          (mp1, h1) = InterlockedPopEntrySList (ListHead (LookasideP s1));
          s2 = s1\<lparr>LookasideP := (LookasideP s1)\<lparr>ListHead := h1\<rparr>\<rparr>
      in case mp1 of
           Some a \<Rightarrow> (Some a, IopCompletionPacketMini, s2)
         | None \<Rightarrow>
             (let s3 = s2\<lparr>LookasideP := (LookasideP s2)\<lparr>AllocateMisses := AllocateMisses (LookasideP s2) + 1\<rparr>\<rparr>;
                  s4 = s3\<lparr>LookasideL := (LookasideL s3)\<lparr>TotalAllocates := TotalAllocates (LookasideL s3) + 1\<rparr>\<rparr>;
                  (mp2, h2) = InterlockedPopEntrySList (ListHead (LookasideL s4));
                  s5 = s4\<lparr>LookasideL := (LookasideL s4)\<lparr>ListHead := h2\<rparr>\<rparr>
              in case mp2 of
                   Some a \<Rightarrow> (Some a, IopCompletionPacketMini, s5)
                 | None \<Rightarrow>
                     (let s6 = s5\<lparr>LookasideL := (LookasideL s5)\<lparr>AllocateMisses := AllocateMisses (LookasideL s5) + 1\<rparr>\<rparr>
                      in if Quota
                         then (let (mp3, s7) = ExAllocatePoolWithQuotaTag s6 pool
                               in (mp3, IopCompletionPacketQuota, s7))
                         else (let (mp3, s7) = ExAllocatePoolWithTagPriority s6 pool
                               in (mp3, IopCompletionPacketMini, s7)))))"

text \<open>
  Lines 405 to 417: a packet that was obtained is initialised and queued; without a
  packet the status is \<open>STATUS_INSUFFICIENT_RESOURCES\<close>.
\<close>

definition IoSetIoCompletion ::
  "kernel \<Rightarrow> addr \<Rightarrow> nat \<Rightarrow> nat \<Rightarrow> NTSTATUS \<Rightarrow> nat \<Rightarrow> bool \<Rightarrow> addr option
     \<Rightarrow> (NTSTATUS \<times> kernel) option" where
  "IoSetIoCompletion s IoCompletion Key Apc IoSt IoStInfo Quota pool =
     (let (mp, ty, s1) = IoSetIoCompletion_allocate s Quota pool
      in case mp of
           Some MiniPacket \<Rightarrow>
             (let s2 = s1\<lparr>Objects := (Objects s1)(MiniPacket \<mapsto>
                          MiniObject \<lparr>PacketType = ty, KeyContext = Key, ApcContext = Apc,
                                      IoStatus = IoSt, IoStatusInformation = IoStInfo\<rparr>)\<rparr>
              in case KeInsertQueue s2 IoCompletion MiniPacket of
                   None \<Rightarrow> None
                 | Some s3 \<Rightarrow> Some (STATUS_SUCCESS, s3))
         | None \<Rightarrow> Some (STATUS_INSUFFICIENT_RESOURCES, s1))"

subsection \<open>Object references and the caller's address space\<close>

definition STATUS_OBJECT_TYPE_MISMATCH :: NTSTATUS where
  "STATUS_OBJECT_TYPE_MISMATCH = 0xC0000024"

definition STATUS_ACCESS_VIOLATION :: NTSTATUS where
  "STATUS_ACCESS_VIOLATION = 0xC0000005"

text \<open>
  Modelled from the spec: \<open>ObReferenceObjectByHandle\<close> and \<open>ObDereferenceObject\<close> are
  not in complete.c. A port reference that cannot be resolved is a failure status of
  the object-lifetime collaborator; a resolved one is the address of a queue, and the
  reference taken is released by the matching dereference.
\<close>

definition ObReferenceObjectByHandle :: "kernel \<Rightarrow> HANDLE \<Rightarrow> NTSTATUS \<times> addr option \<times> kernel" where
  "ObReferenceObjectByHandle s h =
     (case HandleTable s h of
        None \<Rightarrow> (STATUS_INVALID_HANDLE, None, s)
      | Some a \<Rightarrow>
          (if Queues s a = None then (STATUS_OBJECT_TYPE_MISMATCH, None, s)
           else (STATUS_SUCCESS, Some a, s\<lparr>Log := Log s @ [Referenced a]\<rparr>)))"

definition ObDereferenceObject :: "kernel \<Rightarrow> addr \<Rightarrow> kernel" where
  "ObDereferenceObject s a = s\<lparr>Log := Log s @ [Dereferenced a]\<rparr>"

text \<open>
  Modelled from the spec: the probe macros and \<open>ExSystemExceptionFilter\<close> are not in
  complete.c. A probe raises the exception code the address space has for the
  address; a store through a pointer that cannot be written raises an access
  violation; and the filter selects the handler, as the comments at the handlers say
  (a failed write is not reported). \<open>Inl\<close> is a raised exception code.
\<close>

definition Probe :: "kernel \<Rightarrow> addr \<Rightarrow> NTSTATUS + unit" where
  "Probe s a = (case ProbeFault s a of Some code \<Rightarrow> Inl code | None \<Rightarrow> Inr ())"

definition store :: "kernel \<Rightarrow> addr \<Rightarrow> uval \<Rightarrow> NTSTATUS + kernel" where
  "store s a v =
     (if Writable s a then Inr (s\<lparr>UserMem := (UserMem s)(a \<mapsto> v)\<rparr>)
      else Inl STATUS_ACCESS_VIOLATION)"

subsection \<open>NtSetIoCompletion\<close>

definition NtSetIoCompletion ::
  "kernel \<Rightarrow> HANDLE \<Rightarrow> nat \<Rightarrow> nat \<Rightarrow> NTSTATUS \<Rightarrow> nat \<Rightarrow> addr option \<Rightarrow> (NTSTATUS \<times> kernel) option" where
  "NtSetIoCompletion s IoCompletionHandle Key Apc IoSt IoStInfo pool =
     (let (Status0, ref, s1) = ObReferenceObjectByHandle s IoCompletionHandle
      in if NT_SUCCESS Status0
         then (case ref of
                 None \<Rightarrow> None
               | Some IoCompletion \<Rightarrow>
                   (case IoSetIoCompletion s1 IoCompletion Key Apc IoSt IoStInfo True pool of
                      None \<Rightarrow> None
                    | Some (Status1, s2) \<Rightarrow> Some (Status1, ObDereferenceObject s2 IoCompletion)))
         else Some (Status0, s1))"

subsection \<open>NtQueryIoCompletion\<close>

text \<open>
  Modelled from the spec: \<open>KeReadStateQueue\<close> is not in complete.c. The depth is the
  current count of pending entries, as a LONG.
\<close>

definition KeReadStateQueue :: "KQUEUE \<Rightarrow> ULONG" where
  "KeReadStateQueue k = of_nat (length (EntryListHead k))"

definition IoCompletionBasicInformation :: nat where
  "IoCompletionBasicInformation = 0"

text \<open>\<open>sizeof(IO_COMPLETION_BASIC_INFORMATION)\<close>, which line 168 asserts to be \<open>sizeof(ULONG)\<close>.\<close>

definition sizeof_IO_COMPLETION_BASIC_INFORMATION :: ULONG where
  "sizeof_IO_COMPLETION_BASIC_INFORMATION = 4"

text \<open>Lines 166 to 173: the probes of the output arguments, for a caller not in kernel mode.\<close>

definition NtQueryIoCompletion_probe :: "kernel \<Rightarrow> addr \<Rightarrow> addr option \<Rightarrow> NTSTATUS + unit" where
  "NtQueryIoCompletion_probe s IoCompletionInformation ReturnLength =
     (if PreviousMode s \<noteq> KernelMode
      then (case Probe s IoCompletionInformation of
              Inl code \<Rightarrow> Inl code
            | Inr u \<Rightarrow>
                (case ReturnLength of
                   Some rl \<Rightarrow> Probe s rl
                 | None \<Rightarrow> Inr ()))
      else Inr ())"

text \<open>Lines 188 to 196: the guarded write of the depth and of the optional length.\<close>

definition NtQueryIoCompletion_write :: "kernel \<Rightarrow> addr \<Rightarrow> addr option \<Rightarrow> ULONG \<Rightarrow> kernel" where
  "NtQueryIoCompletion_write s IoCompletionInformation ReturnLength Depth0 =
     (case store s IoCompletionInformation (UlongValue Depth0) of
        Inl code \<Rightarrow> s
      | Inr s1 \<Rightarrow>
          (case ReturnLength of
             None \<Rightarrow> s1
           | Some rl \<Rightarrow>
               (case store s1 rl (UlongValue sizeof_IO_COMPLETION_BASIC_INFORMATION) of
                  Inl code \<Rightarrow> s1
                | Inr s2 \<Rightarrow> s2)))"

definition NtQueryIoCompletion ::
  "kernel \<Rightarrow> HANDLE \<Rightarrow> nat \<Rightarrow> addr \<Rightarrow> ULONG \<Rightarrow> addr option \<Rightarrow> (NTSTATUS \<times> kernel) option" where
  "NtQueryIoCompletion s IoCompletionHandle IoCompletionInformationClass IoCompletionInformation
       IoCompletionInformationLength ReturnLength =
     (case NtQueryIoCompletion_probe s IoCompletionInformation ReturnLength of
        Inl code \<Rightarrow> Some (code, s)
      | Inr u \<Rightarrow>
          (if IoCompletionInformationClass \<noteq> IoCompletionBasicInformation
           then Some (STATUS_INVALID_INFO_CLASS, s)
           else if IoCompletionInformationLength \<noteq> sizeof_IO_COMPLETION_BASIC_INFORMATION
           then Some (STATUS_INFO_LENGTH_MISMATCH, s)
           else
             (let (Status0, ref, s1) = ObReferenceObjectByHandle s IoCompletionHandle
              in if NT_SUCCESS Status0
                 then (case ref of
                         None \<Rightarrow> None
                       | Some IoCompletion \<Rightarrow>
                           (case Queues s1 IoCompletion of
                              None \<Rightarrow> None
                            | Some k \<Rightarrow>
                                (let Depth0 = KeReadStateQueue k;
                                     s2 = ObDereferenceObject s1 IoCompletion
                                 in Some (Status0,
                                      NtQueryIoCompletion_write s2 IoCompletionInformation
                                        ReturnLength Depth0))))
                 else Some (Status0, s1))))"

subsection \<open>NtRemoveIoCompletion\<close>

text \<open>
  Modelled from the spec: \<open>KeRemoveQueue\<close> is not in complete.c. If an entry is
  pending and the concurrency ceiling admits the caller, the head entry is popped and
  the caller becomes active. Otherwise the caller blocks, and \<open>wait\<close> says how the
  wait ends: the timeout elapses, the wait is aborted by an asynchronous procedure, or
  an insert hands its entry to the waiter directly. A wait that ends without an entry
  leaves the queue as it was. The calling thread is taken not to be active against
  the queue already. The result is what line 304 notes: the address of a list entry,
  \<open>STATUS_USER_APC\<close> or \<open>STATUS_TIMEOUT\<close>. The C code returns the two status
  values in the pointer itself and tells them apart by comparison (line 305); here
  the two kinds of result are the two constructors of \<open>remove_result\<close>.
\<close>

datatype wait_outcome = WaitExpired | WaitAlerted | WaitDelivered addr

datatype remove_result = RemovedEntry addr | RemoveStatus NTSTATUS

definition KeRemoveQueue_blocked :: "KQUEUE \<Rightarrow> wait_outcome \<Rightarrow> remove_result \<times> KQUEUE" where
  "KeRemoveQueue_blocked k wait =
     (case wait of
        WaitExpired \<Rightarrow> (RemoveStatus STATUS_TIMEOUT, k)
      | WaitAlerted \<Rightarrow> (RemoveStatus STATUS_USER_APC, k)
      | WaitDelivered e \<Rightarrow> (RemovedEntry e, k\<lparr>CurrentCount := CurrentCount k + 1\<rparr>))"

definition KeRemoveQueue :: "KQUEUE \<Rightarrow> wait_outcome \<Rightarrow> remove_result \<times> KQUEUE" where
  "KeRemoveQueue k wait =
     (case EntryListHead k of
        [] \<Rightarrow> KeRemoveQueue_blocked k wait
      | e # r \<Rightarrow>
          (if CurrentCount k < MaximumCount k
           then (RemovedEntry e, k\<lparr>EntryListHead := r, CurrentCount := CurrentCount k + 1\<rparr>)
           else KeRemoveQueue_blocked k wait))"

text \<open>
  Lines 281 to 294: the probes of the output arguments and of the optional timeout, for
  a caller not in kernel mode.
\<close>

definition NtRemoveIoCompletion_probe ::
  "kernel \<Rightarrow> addr \<Rightarrow> addr \<Rightarrow> addr \<Rightarrow> addr option \<Rightarrow> NTSTATUS + unit" where
  "NtRemoveIoCompletion_probe s KeyPtr ApcPtr IoStatusBlockPtr Timeout =
     (if PreviousMode s \<noteq> KernelMode
      then (case Probe s ApcPtr of
              Inl code \<Rightarrow> Inl code
            | Inr u1 \<Rightarrow>
                (case Probe s KeyPtr of
                   Inl code \<Rightarrow> Inl code
                 | Inr u2 \<Rightarrow>
                     (case Probe s IoStatusBlockPtr of
                        Inl code \<Rightarrow> Inl code
                      | Inr u3 \<Rightarrow>
                          (case Timeout of
                             Some t \<Rightarrow> Probe s t
                           | None \<Rightarrow> Inr ()))))
      else Inr ())"

text \<open>
  Lines 310 to 323: the completion information is captured into locals and the entry
  is released, the IRP through \<open>IoFreeIrp\<close> and the mini packet through
  \<open>IopFreeMiniPacket\<close>. The result is the captured APC context, key context and I/O
  status block, and the state after the release.
\<close>

definition NtRemoveIoCompletion_capture ::
  "kernel \<Rightarrow> addr \<Rightarrow> (nat \<times> nat \<times> IO_STATUS_BLOCK \<times> kernel) option" where
  "NtRemoveIoCompletion_capture s Entry =
     (case Objects s Entry of
        None \<Rightarrow> None
      | Some ob \<Rightarrow>
          (if PacketType_of ob = IopCompletionPacketIrp
           then (case as_irp ob of
                   None \<Rightarrow> None
                 | Some Irp \<Rightarrow>
                     Some (UserApcContext Irp, CompletionKey Irp, Irp_IoStatus Irp,
                           IoFreeIrp s Entry))
           else (case as_mini ob of
                   None \<Rightarrow> None
                 | Some MiniPacket \<Rightarrow>
                     (case IopFreeMiniPacket s Entry of
                        None \<Rightarrow> None
                      | Some s1 \<Rightarrow>
                          Some (ApcContext MiniPacket, KeyContext MiniPacket,
                                \<lparr>Status = IoStatus MiniPacket,
                                 Information = IoStatusInformation MiniPacket\<rparr>, s1)))))"

text \<open>
  Lines 325 to 331: the three stores through the caller's pointers, in this order; a
  store that faults ends the block, and the handler does nothing.
\<close>

definition NtRemoveIoCompletion_write ::
  "kernel \<Rightarrow> addr \<Rightarrow> addr \<Rightarrow> addr \<Rightarrow> nat \<Rightarrow> nat \<Rightarrow> IO_STATUS_BLOCK \<Rightarrow> kernel" where
  "NtRemoveIoCompletion_write s ApcPtr KeyPtr IoStatusBlockPtr LocalApcContext LocalKeyContext
       LocalIoStatusBlock =
     (case store s ApcPtr (PointerValue LocalApcContext) of
        Inl code \<Rightarrow> s
      | Inr s1 \<Rightarrow>
          (case store s1 KeyPtr (PointerValue LocalKeyContext) of
             Inl code \<Rightarrow> s1
           | Inr s2 \<Rightarrow>
               (case store s2 IoStatusBlockPtr (StatusBlockValue LocalIoStatusBlock) of
                  Inl code \<Rightarrow> s2
                | Inr s3 \<Rightarrow> s3)))"

definition NtRemoveIoCompletion ::
  "kernel \<Rightarrow> HANDLE \<Rightarrow> addr \<Rightarrow> addr \<Rightarrow> addr \<Rightarrow> addr option \<Rightarrow> wait_outcome
     \<Rightarrow> (NTSTATUS \<times> kernel) option" where
  "NtRemoveIoCompletion s IoCompletionHandle KeyPtr ApcPtr IoStatusBlockPtr Timeout wait =
     (case NtRemoveIoCompletion_probe s KeyPtr ApcPtr IoStatusBlockPtr Timeout of
        Inl code \<Rightarrow> Some (code, s)
      | Inr u \<Rightarrow>
          (let (Status0, ref, s1) = ObReferenceObjectByHandle s IoCompletionHandle
           in if NT_SUCCESS Status0
              then (case ref of
                      None \<Rightarrow> None
                    | Some IoCompletion \<Rightarrow>
                        (case Queues s1 IoCompletion of
                           None \<Rightarrow> None
                         | Some k \<Rightarrow>
                             (let (Entry, k1) = KeRemoveQueue k wait;
                                  s2 = s1\<lparr>Queues := (Queues s1)(IoCompletion \<mapsto> k1)\<rparr>
                              in case Entry of
                                   RemoveStatus st \<Rightarrow> Some (st, ObDereferenceObject s2 IoCompletion)
                                 | RemovedEntry e \<Rightarrow>
                                     (case NtRemoveIoCompletion_capture s2 e of
                                        None \<Rightarrow> None
                                      | Some (LocalApcContext, LocalKeyContext, LocalIoStatusBlock, s3) \<Rightarrow>
                                          Some (STATUS_SUCCESS,
                                                ObDereferenceObject
                                                  (NtRemoveIoCompletion_write s3 ApcPtr KeyPtr
                                                     IoStatusBlockPtr LocalApcContext LocalKeyContext
                                                     LocalIoStatusBlock)
                                                  IoCompletion)))))
              else Some (Status0, s1)))"

subsection \<open>IopDeleteIoCompletion\<close>

text \<open>
  Modelled from the spec: \<open>KeRundownQueue\<close> is not in complete.c. Rundown returns the
  entries that were pending and never delivered and leaves the queue empty. As the
  loop of the delete routine expects, they come as the first entry of a circular
  chain (\<open>Flink\<close> of the last entry is the first entry), or NULL when none was pending.
\<close>

definition circular_Flink :: "addr list \<Rightarrow> (addr \<rightharpoonup> addr)" where
  "circular_Flink es = map_of (zip es (rotate1 es))"

definition KeRundownQueue :: "KQUEUE \<Rightarrow> addr option \<times> (addr \<rightharpoonup> addr) \<times> KQUEUE" where
  "KeRundownQueue k =
     ((case EntryListHead k of [] \<Rightarrow> None | e # r \<Rightarrow> Some e),
      circular_Flink (EntryListHead k),
      k\<lparr>EntryListHead := []\<rparr>)"

text \<open>
  Lines 482 to 487: one entry is released through the path its packet type selects.
\<close>

definition IopDeleteIoCompletion_release :: "kernel \<Rightarrow> addr \<Rightarrow> kernel option" where
  "IopDeleteIoCompletion_release s Entry =
     (case Objects s Entry of
        None \<Rightarrow> None
      | Some ob \<Rightarrow>
          (if PacketType_of ob = IopCompletionPacketIrp
           then (case as_irp ob of
                   None \<Rightarrow> None
                 | Some Irp \<Rightarrow> Some (IoFreeIrp s Entry))
           else IopFreeMiniPacket s Entry))"

text \<open>
  Lines 479 to 488: the do-while loop over the chain. The forward link of the entry is
  read before the entry is released. \<open>None\<close>: the loop does not return (or reads
  through a pointer to no object).
\<close>

partial_function (option) IopDeleteIoCompletion_loop ::
  "(addr \<rightharpoonup> addr) \<Rightarrow> addr \<Rightarrow> addr \<Rightarrow> kernel \<Rightarrow> kernel option" where
  "IopDeleteIoCompletion_loop Flink FirstEntry NextEntry s =
     (case Flink NextEntry of
        None \<Rightarrow> None
      | Some NextEntry1 \<Rightarrow>
          (case IopDeleteIoCompletion_release s NextEntry of
             None \<Rightarrow> None
           | Some s1 \<Rightarrow>
               (if FirstEntry \<noteq> NextEntry1
                then IopDeleteIoCompletion_loop Flink FirstEntry NextEntry1 s1
                else Some s1)))"

definition IopDeleteIoCompletion :: "kernel \<Rightarrow> addr \<Rightarrow> kernel option" where
  "IopDeleteIoCompletion s Object =
     (case Queues s Object of
        None \<Rightarrow> None
      | Some k \<Rightarrow>
          (let (FirstEntry, Flink, k1) = KeRundownQueue k;
               s1 = s\<lparr>Queues := (Queues s)(Object \<mapsto> k1)\<rparr>
           in case FirstEntry of
                None \<Rightarrow> Some s1
              | Some e \<Rightarrow> IopDeleteIoCompletion_loop Flink e e s1))"

text \<open>
  The spec's words for teardown, to compare the loop with: for every entry that
  rundown returned, in order, release it through the path of its variant.
\<close>

fun release_each :: "kernel \<Rightarrow> addr list \<Rightarrow> kernel option" where
  "release_each s [] = Some s"
| "release_each s (e # es) =
     (case IopDeleteIoCompletion_release s e of
        None \<Rightarrow> None
      | Some s1 \<Rightarrow> release_each s1 es)"

subsection \<open>The quota invariant\<close>

text \<open>
  The state of the quota accounting that the routines maintain: an object is charged
  exactly if it is a packet of type \<open>IopCompletionPacketQuota\<close>; only objects are
  charged; the blocks on the two lookaside lists are distinct and are not objects; and
  for every block the charges made are the returns made, plus one if the block is
  charged now.
\<close>

definition quota_inv :: "kernel \<Rightarrow> bool" where
  "quota_inv s \<longleftrightarrow>
     (\<forall>a ob. Objects s a = Some ob \<longrightarrow>
        (a \<in> Charged s) = (PacketType_of ob = IopCompletionPacketQuota)) \<and>
     Charged s \<subseteq> dom (Objects s) \<and>
     distinct (ListHead (LookasideP s) @ ListHead (LookasideL s)) \<and>
     set (ListHead (LookasideP s) @ ListHead (LookasideL s)) \<inter> dom (Objects s) = {} \<and>
     (\<forall>a. count_list (Log s) (QuotaCharged a) =
            count_list (Log s) (QuotaReturned a) + (if a \<in> Charged s then 1 else 0))"

section \<open>Concrete states\<close>

definition lookaside0 :: GENERAL_LOOKASIDE where
  "lookaside0 = \<lparr>ListHead = [], Depth = 4, TotalAllocates = 0, AllocateMisses = 0,
                 TotalFrees = 0, FreeMisses = 0\<rparr>"

text \<open>
  A user-mode caller, one port at address 100 with ceiling 2 behind handle 1, empty
  lookaside lists of depth 4; address 0 cannot be probed or written, and address 32
  passes a probe but cannot be written.
\<close>

definition kernel0 :: kernel where
  "kernel0 = \<lparr>Objects = Map.empty, LookasideP = lookaside0, LookasideL = lookaside0,
              Charged = {}, Log = [],
              Queues = [100 \<mapsto> \<lparr>EntryListHead = [], CurrentCount = 0, MaximumCount = 2\<rparr>],
              HandleTable = [1 \<mapsto> 100], PreviousMode = UserMode,
              ProbeFault = (\<lambda>a. if a = 0 then Some STATUS_ACCESS_VIOLATION else None),
              Writable = (\<lambda>a. a \<noteq> 0 \<and> a \<noteq> 32), UserMem = Map.empty\<rparr>"

definition packet10 :: IOP_MINI_COMPLETION_PACKET where
  "packet10 = \<lparr>PacketType = IopCompletionPacketQuota, KeyContext = 1, ApcContext = 2,
               IoStatus = 0, IoStatusInformation = 3\<rparr>"

definition irp20 :: IRP where
  "irp20 = \<lparr>UserApcContext = 5, CompletionKey = 6,
            Irp_IoStatus = \<lparr>Status = 0, Information = 7\<rparr>\<rparr>"

text \<open>A quota-charged packet at address 10, not queued.\<close>

definition kernel1 :: kernel where
  "kernel1 = kernel0\<lparr>Objects := [10 \<mapsto> MiniObject packet10], Charged := {10}\<rparr>"

text \<open>The same with a per processor list of depth 0, and with both lists of depth 0.\<close>

definition kernel1_P_full :: kernel where
  "kernel1_P_full = kernel1\<lparr>LookasideP := lookaside0\<lparr>Depth := 0\<rparr>\<rparr>"

definition kernel1_full :: kernel where
  "kernel1_full = kernel1\<lparr>LookasideP := lookaside0\<lparr>Depth := 0\<rparr>,
                          LookasideL := lookaside0\<lparr>Depth := 0\<rparr>\<rparr>"

text \<open>The port of \<open>kernel0\<close> with the packet at 10 and an IRP at 20 pending.\<close>

definition kernel2 :: kernel where
  "kernel2 = kernel0\<lparr>Objects := [10 \<mapsto> MiniObject packet10, 20 \<mapsto> IrpObject irp20],
                     Charged := {10},
                     Queues := [100 \<mapsto> \<lparr>EntryListHead = [10, 20], CurrentCount = 0,
                                          MaximumCount = 2\<rparr>]\<rparr>"

text \<open>The same port with the IRP ahead of the packet, and with the ceiling reached.\<close>

definition kernel3 :: kernel where
  "kernel3 = kernel2\<lparr>Queues := [100 \<mapsto> \<lparr>EntryListHead = [20, 10], CurrentCount = 0,
                                          MaximumCount = 2\<rparr>]\<rparr>"

definition kernel2_ceiling :: kernel where
  "kernel2_ceiling = kernel2\<lparr>Queues := [100 \<mapsto> \<lparr>EntryListHead = [10, 20], CurrentCount = 2,
                                                  MaximumCount = 2\<rparr>]\<rparr>"

text \<open>The state of \<open>kernel2\<close> with the charge of the packet at 10 on record.\<close>

definition kernel2_charged :: kernel where
  "kernel2_charged = kernel2\<lparr>Log := [QuotaCharged 10]\<rparr>"

text \<open>The queue of \<open>kernel2\<close>, and that queue after the packet at 10 has been removed.\<close>

definition queue2 :: KQUEUE where
  "queue2 = \<lparr>EntryListHead = [10, 20], CurrentCount = 0, MaximumCount = 2\<rparr>"

definition queue2_removed :: KQUEUE where
  "queue2_removed = \<lparr>EntryListHead = [20], CurrentCount = 1, MaximumCount = 2\<rparr>"

text \<open>
  \<open>kernel2\<close> after a reference to the port has been taken and released; the same
  with the size of the information structure stored at address 8; and \<open>kernel2\<close>
  after the packet at 10 has been removed and released with nothing stored to the
  caller.
\<close>

definition kernel2_referenced :: kernel where
  "kernel2_referenced = kernel2\<lparr>Log := [Referenced 100, Dereferenced 100]\<rparr>"

definition kernel2_size_stored :: kernel where
  "kernel2_size_stored = kernel2_referenced\<lparr>UserMem := [8 \<mapsto> UlongValue 4]\<rparr>"

definition kernel2_removed :: kernel where
  "kernel2_removed =
     kernel2\<lparr>Objects := [20 \<mapsto> IrpObject irp20],
             LookasideP := lookaside0\<lparr>ListHead := [10], TotalFrees := 1\<rparr>,
             Charged := {},
             Log := [Referenced 100, QuotaReturned 10, Dereferenced 100],
             Queues := [100 \<mapsto> queue2_removed]\<rparr>"

section \<open>Properties\<close>

subsection \<open>Status codes\<close>

lemma status_distinct:
  "STATUS_SUCCESS \<noteq> STATUS_INSUFFICIENT_RESOURCES"
  "STATUS_ACCESS_VIOLATION \<noteq> STATUS_INVALID_INFO_CLASS"
  "STATUS_ACCESS_VIOLATION \<noteq> STATUS_INFO_LENGTH_MISMATCH"
  "STATUS_TIMEOUT \<noteq> STATUS_SUCCESS"
  "STATUS_USER_APC \<noteq> STATUS_SUCCESS"
  by (simp_all add: STATUS_SUCCESS_def STATUS_INSUFFICIENT_RESOURCES_def
      STATUS_ACCESS_VIOLATION_def STATUS_INVALID_INFO_CLASS_def STATUS_INFO_LENGTH_MISMATCH_def
      STATUS_TIMEOUT_def STATUS_USER_APC_def)

lemma NT_SUCCESS_codes:
  "NT_SUCCESS STATUS_SUCCESS"
  "\<not> NT_SUCCESS STATUS_INVALID_HANDLE"
  "\<not> NT_SUCCESS STATUS_OBJECT_TYPE_MISMATCH"
  by (simp_all add: NT_SUCCESS_def STATUS_SUCCESS_def STATUS_INVALID_HANDLE_def
      STATUS_OBJECT_TYPE_MISMATCH_def)

lemma ObReferenceObjectByHandle_valid:
  assumes "HandleTable s h = Some q" and "Queues s q = Some k"
  shows "ObReferenceObjectByHandle s h = (STATUS_SUCCESS, Some q, s\<lparr>Log := Log s @ [Referenced q]\<rparr>)"
  using assms by (simp add: ObReferenceObjectByHandle_def)

subsection \<open>The three tiers of IopFreeMiniPacket\<close>

lemma return_quota_if_charged_mini:
  "Objects s p = Some (MiniObject m) \<Longrightarrow>
   return_quota_if_charged s p =
     Some (if PacketType m = IopCompletionPacketQuota then ExReturnPoolQuota s p else s)"
  by (simp add: return_quota_if_charged_def)

lemma IopFreeMiniPacket_P:
  assumes "Objects s p = Some (MiniObject m)"
    and "length (ListHead (LookasideP s)) < Depth (LookasideP s)"
  shows "IopFreeMiniPacket s p =
     Some ((if PacketType m = IopCompletionPacketQuota
            then ExReturnPoolQuota (s\<lparr>LookasideP := (LookasideP s)\<lparr>TotalFrees := TotalFrees (LookasideP s) + 1\<rparr>\<rparr>) p
            else s\<lparr>LookasideP := (LookasideP s)\<lparr>TotalFrees := TotalFrees (LookasideP s) + 1\<rparr>\<rparr>)
           \<lparr>LookasideP := (LookasideP s)\<lparr>TotalFrees := TotalFrees (LookasideP s) + 1,
                                          ListHead := p # ListHead (LookasideP s)\<rparr>,
            Objects := (Objects s)(p := None)\<rparr>)"
  using assms
  by (simp add: IopFreeMiniPacket_def Let_def ExQueryDepthSList_def return_quota_if_charged_mini
      push_packet_def InterlockedPushEntrySList_def ExReturnPoolQuota_def)

lemma IopFreeMiniPacket_L:
  assumes "Objects s p = Some (MiniObject m)"
    and "\<not> length (ListHead (LookasideP s)) < Depth (LookasideP s)"
    and "length (ListHead (LookasideL s)) < Depth (LookasideL s)"
  shows "IopFreeMiniPacket s p =
     Some ((if PacketType m = IopCompletionPacketQuota
            then ExReturnPoolQuota (s\<lparr>LookasideP := (LookasideP s)\<lparr>TotalFrees := TotalFrees (LookasideP s) + 1,
                    FreeMisses := FreeMisses (LookasideP s) + 1\<rparr>\<rparr>) p
            else s\<lparr>LookasideP := (LookasideP s)\<lparr>TotalFrees := TotalFrees (LookasideP s) + 1,
                    FreeMisses := FreeMisses (LookasideP s) + 1\<rparr>\<rparr>)
           \<lparr>LookasideL := (LookasideL s)\<lparr>TotalFrees := TotalFrees (LookasideL s) + 1,
                                          ListHead := p # ListHead (LookasideL s)\<rparr>,
            Objects := (Objects s)(p := None)\<rparr>)"
  using assms
  by (simp add: IopFreeMiniPacket_def Let_def ExQueryDepthSList_def return_quota_if_charged_mini
      push_packet_def InterlockedPushEntrySList_def ExReturnPoolQuota_def)

lemma IopFreeMiniPacket_pool:
  assumes "\<not> length (ListHead (LookasideP s)) < Depth (LookasideP s)"
    and "\<not> length (ListHead (LookasideL s)) < Depth (LookasideL s)"
  shows "IopFreeMiniPacket s p =
     Some (ExFreePool (s\<lparr>LookasideP := (LookasideP s)\<lparr>TotalFrees := TotalFrees (LookasideP s) + 1,
                    FreeMisses := FreeMisses (LookasideP s) + 1\<rparr>,
               LookasideL := (LookasideL s)\<lparr>TotalFrees := TotalFrees (LookasideL s) + 1,
                    FreeMisses := FreeMisses (LookasideL s) + 1\<rparr>\<rparr>) p)"
  using assms
  by (simp add: IopFreeMiniPacket_def Let_def ExQueryDepthSList_def)

lemma IopFreeMiniPacket_total:
  assumes "Objects s p = Some (MiniObject m)"
  shows "\<exists>s'. IopFreeMiniPacket s p = Some s'"
  using assms
  by (simp add: IopFreeMiniPacket_def Let_def return_quota_if_charged_def)

lemma ExReturnPoolQuota_shape:
  "\<exists>c l. ExReturnPoolQuota s p = s\<lparr>Charged := c, Log := l\<rparr>"
proof (cases "p \<in> Charged s")
  case True
  then show ?thesis by (auto simp: ExReturnPoolQuota_def)
next
  case False
  have "s = s\<lparr>Charged := Charged s, Log := Log s\<rparr>" by simp
  with False show ?thesis unfolding ExReturnPoolQuota_def by (metis (full_types))
qed

lemma return_quota_shape:
  assumes "return_quota_if_charged s p = Some s'"
  shows "\<exists>c l. s' = s\<lparr>Charged := c, Log := l\<rparr>"
proof -
  have "s' = ExReturnPoolQuota s p \<or> s' = s"
    using assms by (auto simp: return_quota_if_charged_def split: option.splits if_splits)
  moreover have "s = s\<lparr>Charged := Charged s, Log := Log s\<rparr>" by simp
  ultimately show ?thesis using ExReturnPoolQuota_shape [of s p] by metis
qed

text \<open>What IopFreeMiniPacket leaves alone: it touches the packet, the lists, the charges and the log.\<close>

lemma IopFreeMiniPacket_frame:
  assumes "IopFreeMiniPacket s p = Some s'"
  shows "Objects s' = (Objects s)(p := None) \<and> Queues s' = Queues s \<and> UserMem s' = UserMem s \<and>
    Writable s' = Writable s \<and> HandleTable s' = HandleTable s"
proof -
  let ?s1 = "s\<lparr>LookasideP := (LookasideP s)\<lparr>TotalFrees := TotalFrees (LookasideP s) + 1\<rparr>\<rparr>"
  let ?s3 = "?s1\<lparr>LookasideP := (LookasideP ?s1)\<lparr>FreeMisses := FreeMisses (LookasideP ?s1) + 1\<rparr>,
                 LookasideL := (LookasideL ?s1)\<lparr>TotalFrees := TotalFrees (LookasideL ?s1) + 1\<rparr>\<rparr>"
  let ?s4 = "?s3\<lparr>LookasideL := (LookasideL ?s3)\<lparr>FreeMisses := FreeMisses (LookasideL ?s3) + 1\<rparr>\<rparr>"
  consider (P) s2 where "return_quota_if_charged ?s1 p = Some s2"
        "s' = s2\<lparr>LookasideP := push_packet (LookasideP s2) p, Objects := (Objects s2)(p := None)\<rparr>"
    | (L) s4 where "return_quota_if_charged ?s3 p = Some s4"
        "s' = s4\<lparr>LookasideL := push_packet (LookasideL s4) p, Objects := (Objects s4)(p := None)\<rparr>"
    | (pool) "s' = ExFreePool ?s4 p"
    using assms
    by (auto simp: IopFreeMiniPacket_def Let_def split: option.splits if_splits)
  then show ?thesis
  proof cases
    case P
    from return_quota_shape [OF P(1)] obtain c l where "s2 = ?s1\<lparr>Charged := c, Log := l\<rparr>" by blast
    with P(2) show ?thesis by simp
  next
    case L
    from return_quota_shape [OF L(1)] obtain c l where "s4 = ?s3\<lparr>Charged := c, Log := l\<rparr>" by blast
    with L(2) show ?thesis by simp
  next
    case pool
    obtain c l where "ExReturnPoolQuota ?s4 p = ?s4\<lparr>Charged := c, Log := l\<rparr>"
      using ExReturnPoolQuota_shape by blast
    with pool show ?thesis by (simp add: ExFreePool_def Let_def)
  qed
qed

text \<open>
  C4: a live mini packet whose type records its quota charge goes to the per processor
  list if that list is below its depth, else to the system list if that one is below
  its depth, else to pool, where the quota charge of a packet of type
  \<open>IopCompletionPacketQuota\<close> is returned before the block is freed. The routine
  returns a state in every case, and the packet carries no charge afterwards.
\<close>

theorem IopFreeMiniPacket_tiers:
  assumes live: "Objects s p = Some (MiniObject m)"
    and tag: "(p \<in> Charged s) = (PacketType m = IopCompletionPacketQuota)"
  shows "\<exists>s'. IopFreeMiniPacket s p = Some s' \<and> p \<notin> Charged s' \<and>
     (length (ListHead (LookasideP s)) < Depth (LookasideP s) \<longrightarrow>
        ListHead (LookasideP s') = p # ListHead (LookasideP s) \<and>
        ListHead (LookasideL s') = ListHead (LookasideL s) \<and>
        Log s' = Log s @ (if PacketType m = IopCompletionPacketQuota then [QuotaReturned p] else [])) \<and>
     (\<not> length (ListHead (LookasideP s)) < Depth (LookasideP s) \<and>
      length (ListHead (LookasideL s)) < Depth (LookasideL s) \<longrightarrow>
        ListHead (LookasideP s') = ListHead (LookasideP s) \<and>
        ListHead (LookasideL s') = p # ListHead (LookasideL s) \<and>
        Log s' = Log s @ (if PacketType m = IopCompletionPacketQuota then [QuotaReturned p] else [])) \<and>
     (\<not> length (ListHead (LookasideP s)) < Depth (LookasideP s) \<and>
      \<not> length (ListHead (LookasideL s)) < Depth (LookasideL s) \<longrightarrow>
        ListHead (LookasideP s') = ListHead (LookasideP s) \<and>
        ListHead (LookasideL s') = ListHead (LookasideL s) \<and>
        Log s' = Log s @ (if PacketType m = IopCompletionPacketQuota then [QuotaReturned p] else [])
                       @ [PoolFreed p])"
proof -
  consider (P) "length (ListHead (LookasideP s)) < Depth (LookasideP s)"
    | (L) "\<not> length (ListHead (LookasideP s)) < Depth (LookasideP s)"
          "length (ListHead (LookasideL s)) < Depth (LookasideL s)"
    | (pool) "\<not> length (ListHead (LookasideP s)) < Depth (LookasideP s)"
          "\<not> length (ListHead (LookasideL s)) < Depth (LookasideL s)"
    by blast
  then show ?thesis
  proof cases
    case P
    show ?thesis using P tag
      by (simp add: IopFreeMiniPacket_P [OF live P] ExReturnPoolQuota_def)
  next
    case L
    show ?thesis using L tag
      by (simp add: IopFreeMiniPacket_L [OF live L] ExReturnPoolQuota_def)
  next
    case pool
    show ?thesis using pool tag
      by (simp add: IopFreeMiniPacket_pool [OF pool] ExFreePool_def ExReturnPoolQuota_def Let_def)
  qed
qed

theorem IopFreeMiniPacket_tiers_witness:
  "(\<exists>s'. IopFreeMiniPacket kernel1 10 = Some s' \<and> ListHead (LookasideP s') = [10] \<and>
          ListHead (LookasideL s') = [] \<and> Log s' = [QuotaReturned 10]) \<and>
   (\<exists>s'. IopFreeMiniPacket kernel1_P_full 10 = Some s' \<and> ListHead (LookasideP s') = [] \<and>
          ListHead (LookasideL s') = [10] \<and> Log s' = [QuotaReturned 10]) \<and>
   (\<exists>s'. IopFreeMiniPacket kernel1_full 10 = Some s' \<and> ListHead (LookasideP s') = [] \<and>
          ListHead (LookasideL s') = [] \<and> Log s' = [QuotaReturned 10, PoolFreed 10])"
  using IopFreeMiniPacket_tiers [of kernel1 10 packet10]
    IopFreeMiniPacket_tiers [of kernel1_P_full 10 packet10]
    IopFreeMiniPacket_tiers [of kernel1_full 10 packet10]
  by (clarsimp simp: kernel1_def kernel1_P_full_def kernel1_full_def kernel0_def lookaside0_def
      packet10_def)

subsection \<open>The allocation order of IoSetIoCompletion\<close>

lemma allocate_P:
  assumes "ListHead (LookasideP s) = a # r"
  shows "IoSetIoCompletion_allocate s Quota pool =
     (Some a, IopCompletionPacketMini,
      s\<lparr>LookasideP := (LookasideP s)\<lparr>TotalAllocates := TotalAllocates (LookasideP s) + 1,
                                     ListHead := r\<rparr>\<rparr>)"
  using assms
  by (simp add: IoSetIoCompletion_allocate_def InterlockedPopEntrySList_def Let_def)

lemma allocate_L:
  assumes "ListHead (LookasideP s) = []" and "ListHead (LookasideL s) = a # r"
  shows "IoSetIoCompletion_allocate s Quota pool =
     (Some a, IopCompletionPacketMini,
      s\<lparr>LookasideP := (LookasideP s)\<lparr>TotalAllocates := TotalAllocates (LookasideP s) + 1,
                                     AllocateMisses := AllocateMisses (LookasideP s) + 1\<rparr>,
        LookasideL := (LookasideL s)\<lparr>TotalAllocates := TotalAllocates (LookasideL s) + 1,
                                     ListHead := r\<rparr>\<rparr>)"
  using assms
  by (simp add: IoSetIoCompletion_allocate_def InterlockedPopEntrySList_def Let_def)

lemma allocate_pool:
  assumes "ListHead (LookasideP s) = []" and "ListHead (LookasideL s) = []"
  shows "IoSetIoCompletion_allocate s Quota pool =
     (pool, if Quota then IopCompletionPacketQuota else IopCompletionPacketMini,
      (let s1 = s\<lparr>LookasideP := (LookasideP s)\<lparr>TotalAllocates := TotalAllocates (LookasideP s) + 1,
                                     AllocateMisses := AllocateMisses (LookasideP s) + 1\<rparr>,
        LookasideL := (LookasideL s)\<lparr>TotalAllocates := TotalAllocates (LookasideL s) + 1,
                                     AllocateMisses := AllocateMisses (LookasideL s) + 1\<rparr>\<rparr>
       in case pool of
            Some b \<Rightarrow> if Quota then s1\<lparr>Charged := insert b (Charged s), Log := Log s @ [QuotaCharged b]\<rparr> else s1
          | None \<Rightarrow> s1))"
  using assms
  by (cases pool) (simp_all add: IoSetIoCompletion_allocate_def InterlockedPopEntrySList_def Let_def
      ExAllocatePoolWithQuotaTag_def ExAllocatePoolWithTagPriority_def)

lemma allocate_counters:
  assumes "IoSetIoCompletion_allocate s Quota pool = (mp, ty, s1)"
  shows "TotalAllocates (LookasideP s1) = TotalAllocates (LookasideP s) + 1"
    and "TotalFrees (LookasideP s1) = TotalFrees (LookasideP s)"
    and "TotalFrees (LookasideL s1) = TotalFrees (LookasideL s)"
    and "Depth (LookasideP s1) = Depth (LookasideP s)"
    and "ListHead (LookasideP s1) = tl (ListHead (LookasideP s))"
    and "TotalAllocates (LookasideL s1) =
           TotalAllocates (LookasideL s) + (if ListHead (LookasideP s) = [] then 1 else 0)"
  using assms
  by (auto simp: IoSetIoCompletion_allocate_def InterlockedPopEntrySList_def Let_def
      ExAllocatePoolWithQuotaTag_def ExAllocatePoolWithTagPriority_def
      split: list.splits option.splits if_splits)

lemma NtSetIoCompletion_valid:
  assumes "HandleTable s h = Some q" and "Queues s q = Some k"
  shows "NtSetIoCompletion s h Key Apc IoSt Info pool =
     map_option (\<lambda>(st, s'). (st, ObDereferenceObject s' q))
       (IoSetIoCompletion (s\<lparr>Log := Log s @ [Referenced q]\<rparr>) q Key Apc IoSt Info True pool)"
  using assms
  by (simp add: NtSetIoCompletion_def ObReferenceObjectByHandle_valid [OF assms] NT_SUCCESS_codes
      split: option.splits)

text \<open>
  C1: on a port, IoSetIoCompletion takes the packet from the per processor list, else
  from the system list, else from pool (with quota charged and the quota type if
  \<open>Quota\<close> is set, without charge otherwise). It returns
  \<open>STATUS_INSUFFICIENT_RESOURCES\<close> exactly when both lists are empty and pool yields
  no block, and then neither the queue nor any object has changed; on every other
  outcome it returns \<open>STATUS_SUCCESS\<close>, has written the key context, APC context,
  status and status information into the packet and has appended the packet to the
  queue. NtSetIoCompletion over a handle that resolves to the port is this routine with
  \<open>Quota\<close> set, between a reference and its dereference.
\<close>

theorem IoSetIoCompletion_post:
  assumes port: "Queues s q = Some k"
  shows "(\<exists>st s'. IoSetIoCompletion s q Key Apc IoSt Info Quota pool = Some (st, s') \<and>
     (st = STATUS_INSUFFICIENT_RESOURCES \<longleftrightarrow>
        ListHead (LookasideP s) = [] \<and> ListHead (LookasideL s) = [] \<and> pool = None) \<and>
     (st = STATUS_INSUFFICIENT_RESOURCES \<longrightarrow> Queues s' = Queues s \<and> Objects s' = Objects s) \<and>
     (st \<noteq> STATUS_INSUFFICIENT_RESOURCES \<longrightarrow>
        st = STATUS_SUCCESS \<and>
        (\<exists>a ty. Objects s' = (Objects s)(a \<mapsto> MiniObject \<lparr>PacketType = ty, KeyContext = Key,
                                 ApcContext = Apc, IoStatus = IoSt, IoStatusInformation = Info\<rparr>) \<and>
                Queues s' = (Queues s)(q \<mapsto> k\<lparr>EntryListHead := EntryListHead k @ [a]\<rparr>) \<and>
                (case ListHead (LookasideP s) of
                   b # r \<Rightarrow> a = b \<and> ty = IopCompletionPacketMini \<and>
                            ListHead (LookasideP s') = r \<and>
                            ListHead (LookasideL s') = ListHead (LookasideL s) \<and>
                            Charged s' = Charged s \<and> Log s' = Log s
                 | [] \<Rightarrow>
                    (case ListHead (LookasideL s) of
                       b # r \<Rightarrow> a = b \<and> ty = IopCompletionPacketMini \<and>
                                ListHead (LookasideP s') = [] \<and> ListHead (LookasideL s') = r \<and>
                                Charged s' = Charged s \<and> Log s' = Log s
                     | [] \<Rightarrow> pool = Some a \<and> ListHead (LookasideP s') = [] \<and>
                             ListHead (LookasideL s') = [] \<and>
                             (if Quota
                              then ty = IopCompletionPacketQuota \<and> Charged s' = insert a (Charged s) \<and>
                                   Log s' = Log s @ [QuotaCharged a]
                              else ty = IopCompletionPacketMini \<and> Charged s' = Charged s \<and>
                                   Log s' = Log s)))))) \<and>
    (\<forall>h. HandleTable s h = Some q \<longrightarrow>
       NtSetIoCompletion s h Key Apc IoSt Info pool =
         map_option (\<lambda>(st, s'). (st, ObDereferenceObject s' q))
           (IoSetIoCompletion (s\<lparr>Log := Log s @ [Referenced q]\<rparr>) q Key Apc IoSt Info True pool))"
proof (rule conjI)
  show "\<forall>h. HandleTable s h = Some q \<longrightarrow>
       NtSetIoCompletion s h Key Apc IoSt Info pool =
         map_option (\<lambda>(st, s'). (st, ObDereferenceObject s' q))
           (IoSetIoCompletion (s\<lparr>Log := Log s @ [Referenced q]\<rparr>) q Key Apc IoSt Info True pool)"
    using NtSetIoCompletion_valid [OF _ port] by blast
next
  show "\<exists>st s'. IoSetIoCompletion s q Key Apc IoSt Info Quota pool = Some (st, s') \<and>
     (st = STATUS_INSUFFICIENT_RESOURCES \<longleftrightarrow>
        ListHead (LookasideP s) = [] \<and> ListHead (LookasideL s) = [] \<and> pool = None) \<and>
     (st = STATUS_INSUFFICIENT_RESOURCES \<longrightarrow> Queues s' = Queues s \<and> Objects s' = Objects s) \<and>
     (st \<noteq> STATUS_INSUFFICIENT_RESOURCES \<longrightarrow>
        st = STATUS_SUCCESS \<and>
        (\<exists>a ty. Objects s' = (Objects s)(a \<mapsto> MiniObject \<lparr>PacketType = ty, KeyContext = Key,
                                 ApcContext = Apc, IoStatus = IoSt, IoStatusInformation = Info\<rparr>) \<and>
                Queues s' = (Queues s)(q \<mapsto> k\<lparr>EntryListHead := EntryListHead k @ [a]\<rparr>) \<and>
                (case ListHead (LookasideP s) of
                   b # r \<Rightarrow> a = b \<and> ty = IopCompletionPacketMini \<and>
                            ListHead (LookasideP s') = r \<and>
                            ListHead (LookasideL s') = ListHead (LookasideL s) \<and>
                            Charged s' = Charged s \<and> Log s' = Log s
                 | [] \<Rightarrow>
                    (case ListHead (LookasideL s) of
                       b # r \<Rightarrow> a = b \<and> ty = IopCompletionPacketMini \<and>
                                ListHead (LookasideP s') = [] \<and> ListHead (LookasideL s') = r \<and>
                                Charged s' = Charged s \<and> Log s' = Log s
                     | [] \<Rightarrow> pool = Some a \<and> ListHead (LookasideP s') = [] \<and>
                             ListHead (LookasideL s') = [] \<and>
                             (if Quota
                              then ty = IopCompletionPacketQuota \<and> Charged s' = insert a (Charged s) \<and>
                                   Log s' = Log s @ [QuotaCharged a]
                              else ty = IopCompletionPacketMini \<and> Charged s' = Charged s \<and>
                                   Log s' = Log s)))))"
  proof (cases "ListHead (LookasideP s)")
    case (Cons b r)
    show ?thesis using port
      by (simp add: IoSetIoCompletion_def allocate_P [OF Cons] Cons KeInsertQueue_def
          status_distinct)
  next
    case Nil
    note P = Nil
    show ?thesis
    proof (cases "ListHead (LookasideL s)")
      case (Cons b r)
      show ?thesis using port
        by (simp add: IoSetIoCompletion_def allocate_L [OF P Cons] P Cons KeInsertQueue_def
            status_distinct)
    next
      case Nil
      show ?thesis
      proof (cases pool)
        case None
        show ?thesis using port
          by (simp add: IoSetIoCompletion_def allocate_pool [OF P Nil] P Nil None)
      next
        case (Some a)
        show ?thesis using port
          by (simp add: IoSetIoCompletion_def allocate_pool [OF P Nil] P Nil Some KeInsertQueue_def
              status_distinct Let_def)
      qed
    qed
  qed
qed

theorem IoSetIoCompletion_post_witness:
  "(\<exists>s'. IoSetIoCompletion kernel0 100 1 2 0 3 True (Some 10) = Some (STATUS_SUCCESS, s') \<and>
          Objects s' 10 = Some (MiniObject packet10) \<and> Charged s' = {10} \<and>
          Queues s' 100 = Some \<lparr>EntryListHead = [10], CurrentCount = 0, MaximumCount = 2\<rparr>) \<and>
   (\<exists>s'. IoSetIoCompletion kernel0 100 1 2 0 3 True None =
            Some (STATUS_INSUFFICIENT_RESOURCES, s') \<and> Queues s' = Queues kernel0) \<and>
   (\<exists>s'. NtSetIoCompletion kernel0 1 1 2 0 3 None = Some (STATUS_INSUFFICIENT_RESOURCES, s'))"
proof -
  have port: "Queues kernel0 100 = Some \<lparr>EntryListHead = [], CurrentCount = 0, MaximumCount = 2\<rparr>"
    and port': "Queues (kernel0\<lparr>Log := Log kernel0 @ [Referenced 100]\<rparr>) 100 =
                  Some \<lparr>EntryListHead = [], CurrentCount = 0, MaximumCount = 2\<rparr>"
    and lists: "ListHead (LookasideP kernel0) = []" "ListHead (LookasideL kernel0) = []"
    and handle: "HandleTable kernel0 1 = Some 100"
    and none: "Charged kernel0 = {}"
    by (simp_all add: kernel0_def lookaside0_def)
  from IoSetIoCompletion_post [OF port, of 1 2 0 3 True "Some 10"]
  have a: "\<exists>s'. IoSetIoCompletion kernel0 100 1 2 0 3 True (Some 10) = Some (STATUS_SUCCESS, s') \<and>
          Objects s' 10 = Some (MiniObject packet10) \<and> Charged s' = {10} \<and>
          Queues s' 100 = Some \<lparr>EntryListHead = [10], CurrentCount = 0, MaximumCount = 2\<rparr>"
    by (clarsimp simp: lists none port packet10_def)
  from IoSetIoCompletion_post [OF port, of 1 2 0 3 True None]
  have b: "\<exists>s'. IoSetIoCompletion kernel0 100 1 2 0 3 True None =
            Some (STATUS_INSUFFICIENT_RESOURCES, s') \<and> Queues s' = Queues kernel0"
    by (clarsimp simp: lists)
  from IoSetIoCompletion_post [OF port', of 1 2 0 3 True None]
  have "\<exists>s'. IoSetIoCompletion (kernel0\<lparr>Log := Log kernel0 @ [Referenced 100]\<rparr>) 100 1 2 0 3 True None =
            Some (STATUS_INSUFFICIENT_RESOURCES, s')"
    by (clarsimp simp: lists)
  moreover from IoSetIoCompletion_post [OF port, of 1 2 0 3 True None]
  have "NtSetIoCompletion kernel0 1 1 2 0 3 None =
         map_option (\<lambda>(st, s'). (st, ObDereferenceObject s' 100))
           (IoSetIoCompletion (kernel0\<lparr>Log := Log kernel0 @ [Referenced 100]\<rparr>) 100 1 2 0 3 True None)"
    using handle by blast
  ultimately have c: "\<exists>s'. NtSetIoCompletion kernel0 1 1 2 0 3 None = Some (STATUS_INSUFFICIENT_RESOURCES, s')"
    by auto
  from a b c show ?thesis by blast
qed

subsection \<open>Reuse of a freed packet\<close>

text \<open>
  C7: on a per processor list that is within its depth and whose depth is not zero,
  an allocation that yields a packet, the free of that packet and a second allocation
  give back the same address: the packet is pushed on the per processor list and
  popped from it again. Each allocation adds exactly one to \<open>TotalAllocates\<close> of
  the per processor list and leaves \<open>TotalFrees\<close> alone, and the free adds exactly
  one to \<open>TotalFrees\<close> and leaves \<open>TotalAllocates\<close> alone. The system list is
  counted only by a first allocation that misses the per processor list.
\<close>

theorem pool_round_trip:
  assumes within: "length (ListHead (LookasideP s)) \<le> Depth (LookasideP s)"
    and nonzero: "0 < Depth (LookasideP s)"
    and alloc1: "IoSetIoCompletion_allocate s Quota pool = (Some p, ty, s1)"
  shows "\<exists>s2 s3.
     IopFreeMiniPacket
       (s1\<lparr>Objects := (Objects s1)(p \<mapsto> MiniObject \<lparr>PacketType = ty, KeyContext = Key,
              ApcContext = Apc, IoStatus = IoSt, IoStatusInformation = Info\<rparr>)\<rparr>) p = Some s2 \<and>
     IoSetIoCompletion_allocate s2 Quota2 pool2 = (Some p, IopCompletionPacketMini, s3) \<and>
     TotalAllocates (LookasideP s1) = TotalAllocates (LookasideP s) + 1 \<and>
     TotalFrees (LookasideP s1) = TotalFrees (LookasideP s) \<and>
     TotalFrees (LookasideP s2) = TotalFrees (LookasideP s1) + 1 \<and>
     TotalAllocates (LookasideP s2) = TotalAllocates (LookasideP s1) \<and>
     TotalAllocates (LookasideP s3) = TotalAllocates (LookasideP s2) + 1 \<and>
     TotalFrees (LookasideP s3) = TotalFrees (LookasideP s2) \<and>
     TotalAllocates (LookasideL s1) =
       TotalAllocates (LookasideL s) + (if ListHead (LookasideP s) = [] then 1 else 0) \<and>
     TotalAllocates (LookasideL s3) = TotalAllocates (LookasideL s1) \<and>
     TotalFrees (LookasideL s3) = TotalFrees (LookasideL s)"
proof -
  let ?m = "\<lparr>PacketType = ty, KeyContext = Key, ApcContext = Apc, IoStatus = IoSt,
             IoStatusInformation = Info\<rparr>"
  let ?s1 = "s1\<lparr>Objects := (Objects s1)(p \<mapsto> MiniObject ?m)\<rparr>"
  note f = allocate_counters [OF alloc1]
  have room: "length (ListHead (LookasideP ?s1)) < Depth (LookasideP ?s1)"
    using within nonzero f(4,5) by (cases "ListHead (LookasideP s)") simp_all
  have live: "Objects ?s1 p = Some (MiniObject ?m)" by simp
  obtain s2 where free: "IopFreeMiniPacket ?s1 p = Some s2"
    and head: "ListHead (LookasideP s2) = p # ListHead (LookasideP s1)"
    and c2: "TotalFrees (LookasideP s2) = TotalFrees (LookasideP s1) + 1"
            "TotalAllocates (LookasideP s2) = TotalAllocates (LookasideP s1)"
            "LookasideL s2 = LookasideL s1"
    by (simp add: IopFreeMiniPacket_P [OF live room] ExReturnPoolQuota_def)
  obtain s3 where alloc2:
      "IoSetIoCompletion_allocate s2 Quota2 pool2 = (Some p, IopCompletionPacketMini, s3)"
    and c3: "TotalAllocates (LookasideP s3) = TotalAllocates (LookasideP s2) + 1"
            "TotalFrees (LookasideP s3) = TotalFrees (LookasideP s2)"
            "LookasideL s3 = LookasideL s2"
    by (simp add: allocate_P [OF head])
  show ?thesis
    using free alloc2 c2 c3 f by simp
qed

theorem pool_round_trip_witness:
  "\<exists>s1 s2 s3.
     IoSetIoCompletion_allocate kernel0 True (Some 10) = (Some 10, IopCompletionPacketQuota, s1) \<and>
     IopFreeMiniPacket (s1\<lparr>Objects := (Objects s1)(10 \<mapsto> MiniObject packet10)\<rparr>) 10 = Some s2 \<and>
     IoSetIoCompletion_allocate s2 False None = (Some 10, IopCompletionPacketMini, s3) \<and>
     TotalAllocates (LookasideP s1) = 1 \<and> TotalFrees (LookasideP s2) = 1 \<and>
     TotalAllocates (LookasideP s3) = 2 \<and> TotalFrees (LookasideP s3) = 1"
proof -
  have lists: "ListHead (LookasideP kernel0) = []" "ListHead (LookasideL kernel0) = []"
    and depth: "length (ListHead (LookasideP kernel0)) \<le> Depth (LookasideP kernel0)"
      "0 < Depth (LookasideP kernel0)"
    and zero: "TotalAllocates (LookasideP kernel0) = 0" "TotalFrees (LookasideP kernel0) = 0"
    by (simp_all add: kernel0_def lookaside0_def)
  obtain s1 where a1:
    "IoSetIoCompletion_allocate kernel0 True (Some 10) = (Some 10, IopCompletionPacketQuota, s1)"
    by (simp add: allocate_pool [OF lists])
  from pool_round_trip [OF depth a1, of 1 2 0 3 False None]
  show ?thesis using a1 zero by (auto simp: packet10_def)
qed

subsection \<open>Argument checks of NtQueryIoCompletion\<close>

text \<open>
  C8: where the probes of the output arguments raise nothing (no probe is made for a
  caller in kernel mode), a wrong information class gives
  \<open>STATUS_INVALID_INFO_CLASS\<close> and, the class being right, a wrong length gives
  \<open>STATUS_INFO_LENGTH_MISMATCH\<close>, both with the state untouched: no reference has
  been taken. With both right and a handle that resolves to a port the status is
  \<open>STATUS_SUCCESS\<close>, the queue and the objects are as before and the reference is
  released again. The depth of the queue is then stored in the caller's information
  structure if that store does not fault, and after it the size of the structure
  through the return length pointer, if one is given and that store does not fault; a
  store that faults is not reported and ends the stores. So the information structure
  holds the depth when its store did not fault and the return length pointer is not
  the same address; where it is the same address, the size is what remains there.
\<close>

theorem NtQueryIoCompletion_checked:
  assumes "NtQueryIoCompletion_probe s info rl = Inr ()"
  shows "(cls \<noteq> IoCompletionBasicInformation \<longrightarrow>
            NtQueryIoCompletion s h cls info len rl = Some (STATUS_INVALID_INFO_CLASS, s))
       \<and> (cls = IoCompletionBasicInformation \<and> len \<noteq> sizeof_IO_COMPLETION_BASIC_INFORMATION \<longrightarrow>
            NtQueryIoCompletion s h cls info len rl = Some (STATUS_INFO_LENGTH_MISMATCH, s))
       \<and> (cls = IoCompletionBasicInformation \<and> len = sizeof_IO_COMPLETION_BASIC_INFORMATION \<longrightarrow>
            (\<forall>a k. HandleTable s h = Some a \<and> Queues s a = Some k \<longrightarrow>
               (\<exists>s'. NtQueryIoCompletion s h cls info len rl = Some (STATUS_SUCCESS, s')
                  \<and> Queues s' = Queues s \<and> Objects s' = Objects s
                  \<and> Log s' = Log s @ [Referenced a, Dereferenced a]
                  \<and> (Writable s info \<and> rl \<noteq> Some info \<longrightarrow>
                       UserMem s' info = Some (UlongValue (KeReadStateQueue k)))
                  \<and> (\<not> Writable s info \<longrightarrow> UserMem s' = UserMem s)
                  \<and> (Writable s info \<and> rl = None \<longrightarrow>
                       UserMem s' = (UserMem s)(info \<mapsto> UlongValue (KeReadStateQueue k)))
                  \<and> (\<forall>r. Writable s info \<and> rl = Some r \<and> \<not> Writable s r \<longrightarrow>
                       UserMem s' = (UserMem s)(info \<mapsto> UlongValue (KeReadStateQueue k)))
                  \<and> (\<forall>r. Writable s info \<and> rl = Some r \<and> Writable s r \<longrightarrow>
                       UserMem s' =
                         (UserMem s)(info \<mapsto> UlongValue (KeReadStateQueue k),
                                     r \<mapsto> UlongValue sizeof_IO_COMPLETION_BASIC_INFORMATION)))))"
proof (intro conjI impI allI)
  assume "cls \<noteq> IoCompletionBasicInformation"
  then show "NtQueryIoCompletion s h cls info len rl = Some (STATUS_INVALID_INFO_CLASS, s)"
    using assms by (simp add: NtQueryIoCompletion_def)
next
  assume "cls = IoCompletionBasicInformation \<and> len \<noteq> sizeof_IO_COMPLETION_BASIC_INFORMATION"
  then show "NtQueryIoCompletion s h cls info len rl = Some (STATUS_INFO_LENGTH_MISMATCH, s)"
    using assms by (simp add: NtQueryIoCompletion_def)
next
  fix a k
  assume ok: "cls = IoCompletionBasicInformation \<and> len = sizeof_IO_COMPLETION_BASIC_INFORMATION"
    and port: "HandleTable s h = Some a \<and> Queues s a = Some k"
  let ?s2 = "s\<lparr>Log := Log s @ [Referenced a, Dereferenced a]\<rparr>"
  let ?s' = "NtQueryIoCompletion_write ?s2 info rl (KeReadStateQueue k)"
  have run: "NtQueryIoCompletion s h cls info len rl = Some (STATUS_SUCCESS, ?s')"
    using assms ok port
    by (simp add: NtQueryIoCompletion_def ObReferenceObjectByHandle_def NT_SUCCESS_codes
        ObDereferenceObject_def)
  have frame: "Queues ?s' = Queues s" "Objects ?s' = Objects s"
    "Log ?s' = Log s @ [Referenced a, Dereferenced a]"
    by (simp_all add: NtQueryIoCompletion_write_def store_def split: option.splits)
  have mem: "UserMem ?s' =
      (if \<not> Writable s info then UserMem s
       else case rl of
              None \<Rightarrow> (UserMem s)(info \<mapsto> UlongValue (KeReadStateQueue k))
            | Some r \<Rightarrow>
                if Writable s r
                then (UserMem s)(info \<mapsto> UlongValue (KeReadStateQueue k),
                                 r \<mapsto> UlongValue sizeof_IO_COMPLETION_BASIC_INFORMATION)
                else (UserMem s)(info \<mapsto> UlongValue (KeReadStateQueue k)))"
    by (simp add: NtQueryIoCompletion_write_def store_def split: option.splits)
  have m1: "Writable s info \<and> rl \<noteq> Some info \<longrightarrow>
              UserMem ?s' info = Some (UlongValue (KeReadStateQueue k))"
    unfolding mem by (auto split: option.splits)
  have m2: "\<not> Writable s info \<longrightarrow> UserMem ?s' = UserMem s"
    unfolding mem by simp
  have m3: "Writable s info \<and> rl = None \<longrightarrow>
              UserMem ?s' = (UserMem s)(info \<mapsto> UlongValue (KeReadStateQueue k))"
    unfolding mem by simp
  have m4: "\<forall>r. Writable s info \<and> rl = Some r \<and> \<not> Writable s r \<longrightarrow>
              UserMem ?s' = (UserMem s)(info \<mapsto> UlongValue (KeReadStateQueue k))"
    unfolding mem by simp
  have m5: "\<forall>r. Writable s info \<and> rl = Some r \<and> Writable s r \<longrightarrow>
              UserMem ?s' =
                (UserMem s)(info \<mapsto> UlongValue (KeReadStateQueue k),
                            r \<mapsto> UlongValue sizeof_IO_COMPLETION_BASIC_INFORMATION)"
    unfolding mem by simp
  show "\<exists>s'. NtQueryIoCompletion s h cls info len rl = Some (STATUS_SUCCESS, s')
                  \<and> Queues s' = Queues s \<and> Objects s' = Objects s
                  \<and> Log s' = Log s @ [Referenced a, Dereferenced a]
                  \<and> (Writable s info \<and> rl \<noteq> Some info \<longrightarrow>
                       UserMem s' info = Some (UlongValue (KeReadStateQueue k)))
                  \<and> (\<not> Writable s info \<longrightarrow> UserMem s' = UserMem s)
                  \<and> (Writable s info \<and> rl = None \<longrightarrow>
                       UserMem s' = (UserMem s)(info \<mapsto> UlongValue (KeReadStateQueue k)))
                  \<and> (\<forall>r. Writable s info \<and> rl = Some r \<and> \<not> Writable s r \<longrightarrow>
                       UserMem s' = (UserMem s)(info \<mapsto> UlongValue (KeReadStateQueue k)))
                  \<and> (\<forall>r. Writable s info \<and> rl = Some r \<and> Writable s r \<longrightarrow>
                       UserMem s' =
                         (UserMem s)(info \<mapsto> UlongValue (KeReadStateQueue k),
                                     r \<mapsto> UlongValue sizeof_IO_COMPLETION_BASIC_INFORMATION))"
    by (intro exI [of _ ?s'] conjI) (rule run frame m1 m2 m3 m4 m5)+
qed

theorem NtQueryIoCompletion_checked_witness:
  "NtQueryIoCompletion kernel2 1 7 8 4 None = Some (STATUS_INVALID_INFO_CLASS, kernel2) \<and>
   NtQueryIoCompletion kernel2 1 IoCompletionBasicInformation 8 5 None =
     Some (STATUS_INFO_LENGTH_MISMATCH, kernel2) \<and>
   (\<exists>s'. NtQueryIoCompletion kernel2 1 IoCompletionBasicInformation 8 4 None =
            Some (STATUS_SUCCESS, s') \<and> UserMem s' = [8 \<mapsto> UlongValue 2]) \<and>
   (\<exists>s'. NtQueryIoCompletion kernel2 1 IoCompletionBasicInformation 8 4 (Some 16) =
            Some (STATUS_SUCCESS, s') \<and>
          UserMem s' = [8 \<mapsto> UlongValue 2, 16 \<mapsto> UlongValue 4]) \<and>
   (\<exists>s'. NtQueryIoCompletion kernel2 1 IoCompletionBasicInformation 8 4 (Some 8) =
            Some (STATUS_SUCCESS, s') \<and> UserMem s' = [8 \<mapsto> UlongValue 4]) \<and>
   (\<exists>s'. NtQueryIoCompletion kernel2 1 IoCompletionBasicInformation 8 4 (Some 32) =
            Some (STATUS_SUCCESS, s') \<and> UserMem s' = [8 \<mapsto> UlongValue 2]) \<and>
   (\<exists>s'. NtQueryIoCompletion kernel2 1 IoCompletionBasicInformation 32 4 None =
            Some (STATUS_SUCCESS, s') \<and> UserMem s' = Map.empty)"
proof -
  have probe: "NtQueryIoCompletion_probe kernel2 8 None = Inr ()"
    "NtQueryIoCompletion_probe kernel2 8 (Some 16) = Inr ()"
    "NtQueryIoCompletion_probe kernel2 8 (Some 8) = Inr ()"
    "NtQueryIoCompletion_probe kernel2 8 (Some 32) = Inr ()"
    "NtQueryIoCompletion_probe kernel2 32 None = Inr ()"
    by (simp_all add: NtQueryIoCompletion_probe_def Probe_def kernel2_def kernel0_def)
  have port: "HandleTable kernel2 1 = Some 100"
      "Queues kernel2 100 = Some \<lparr>EntryListHead = [10, 20], CurrentCount = 0, MaximumCount = 2\<rparr>"
    and w: "Writable kernel2 8" "Writable kernel2 16" "\<not> Writable kernel2 32"
    and m: "UserMem kernel2 = Map.empty"
    and d: "KeReadStateQueue \<lparr>EntryListHead = [10, 20], CurrentCount = 0, MaximumCount = 2\<rparr> = 2"
      "sizeof_IO_COMPLETION_BASIC_INFORMATION = 4"
    by (simp_all add: kernel2_def kernel0_def KeReadStateQueue_def
        sizeof_IO_COMPLETION_BASIC_INFORMATION_def)
  from NtQueryIoCompletion_checked [OF probe(1), where cls = 7 and h = 1 and len = 4]
  have a: "NtQueryIoCompletion kernel2 1 7 8 4 None = Some (STATUS_INVALID_INFO_CLASS, kernel2)"
    by (simp add: IoCompletionBasicInformation_def)
  from NtQueryIoCompletion_checked [OF probe(1), where cls = IoCompletionBasicInformation
      and h = 1 and len = 5]
  have b: "NtQueryIoCompletion kernel2 1 IoCompletionBasicInformation 8 5 None =
     Some (STATUS_INFO_LENGTH_MISMATCH, kernel2)"
    by (simp add: d(2))
  from NtQueryIoCompletion_checked [OF probe(1), where cls = IoCompletionBasicInformation
      and h = 1 and len = 4]
  have c: "\<exists>s'. NtQueryIoCompletion kernel2 1 IoCompletionBasicInformation 8 4 None =
            Some (STATUS_SUCCESS, s') \<and> UserMem s' = [8 \<mapsto> UlongValue 2]"
    using port w m d by auto
  from NtQueryIoCompletion_checked [OF probe(2), where cls = IoCompletionBasicInformation
      and h = 1 and len = 4]
  have e: "\<exists>s'. NtQueryIoCompletion kernel2 1 IoCompletionBasicInformation 8 4 (Some 16) =
            Some (STATUS_SUCCESS, s') \<and>
          UserMem s' = [8 \<mapsto> UlongValue 2, 16 \<mapsto> UlongValue 4]"
    using port w m d by auto
  from NtQueryIoCompletion_checked [OF probe(3), where cls = IoCompletionBasicInformation
      and h = 1 and len = 4]
  have f: "\<exists>s'. NtQueryIoCompletion kernel2 1 IoCompletionBasicInformation 8 4 (Some 8) =
            Some (STATUS_SUCCESS, s') \<and> UserMem s' = [8 \<mapsto> UlongValue 4]"
    using port w m d by auto
  from NtQueryIoCompletion_checked [OF probe(4), where cls = IoCompletionBasicInformation
      and h = 1 and len = 4]
  have g: "\<exists>s'. NtQueryIoCompletion kernel2 1 IoCompletionBasicInformation 8 4 (Some 32) =
            Some (STATUS_SUCCESS, s') \<and> UserMem s' = [8 \<mapsto> UlongValue 2]"
    using port w m d by auto
  from NtQueryIoCompletion_checked [OF probe(5), where cls = IoCompletionBasicInformation
      and h = 1 and len = 4]
  have i: "\<exists>s'. NtQueryIoCompletion kernel2 1 IoCompletionBasicInformation 32 4 None =
            Some (STATUS_SUCCESS, s') \<and> UserMem s' = Map.empty"
    using port w m d by auto
  from a b c e f g i show ?thesis by blast
qed

text \<open>
  Four calls that show why the conditions above are needed. From user mode with a wrong
  information class and an information pointer that fails its probe, the status is the
  exception code of the probe, not \<open>STATUS_INVALID_INFO_CLASS\<close>. With a right class
  and length over a handle that does not resolve, the status is the failure of the
  reference and nothing is stored. With both right over the port of \<open>kernel2\<close>, whose
  depth is 2: an information pointer that passes its probe but cannot be written gives
  \<open>STATUS_SUCCESS\<close> with nothing stored; and a return length pointer that is the
  information pointer leaves the size 4 there, not the depth.
\<close>

theorem NtQueryIoCompletion_probe_first:
  "NtQueryIoCompletion kernel0 1 7 0 4 None = Some (STATUS_ACCESS_VIOLATION, kernel0) \<and>
   STATUS_ACCESS_VIOLATION \<noteq> STATUS_INVALID_INFO_CLASS \<and>
   STATUS_ACCESS_VIOLATION \<noteq> STATUS_INFO_LENGTH_MISMATCH \<and>
   7 \<noteq> IoCompletionBasicInformation \<and>
   NtQueryIoCompletion kernel0 9 IoCompletionBasicInformation 8
       sizeof_IO_COMPLETION_BASIC_INFORMATION None = Some (STATUS_INVALID_HANDLE, kernel0) \<and>
   Queues kernel2 100 = Some queue2 \<and> KeReadStateQueue queue2 = 2 \<and>
   NtQueryIoCompletion kernel2 1 IoCompletionBasicInformation 32
       sizeof_IO_COMPLETION_BASIC_INFORMATION None = Some (STATUS_SUCCESS, kernel2_referenced) \<and>
   UserMem kernel2_referenced = UserMem kernel2 \<and>
   UserMem kernel2_referenced 32 = None \<and>
   NtQueryIoCompletion kernel2 1 IoCompletionBasicInformation 8
       sizeof_IO_COMPLETION_BASIC_INFORMATION (Some 8) = Some (STATUS_SUCCESS, kernel2_size_stored) \<and>
   UserMem kernel2_size_stored 8 = Some (UlongValue 4)"
  by (simp add: NtQueryIoCompletion_def NtQueryIoCompletion_probe_def Probe_def kernel0_def
      kernel2_def kernel2_referenced_def kernel2_size_stored_def queue2_def
      status_distinct ObReferenceObjectByHandle_def NT_SUCCESS_codes
      IoCompletionBasicInformation_def ObDereferenceObject_def NtQueryIoCompletion_write_def
      store_def KeReadStateQueue_def sizeof_IO_COMPLETION_BASIC_INFORMATION_def)

subsection \<open>Removal of an entry\<close>

lemma NtRemoveIoCompletion_write_frame:
  "Objects (NtRemoveIoCompletion_write s ApcPtr KeyPtr IosbPtr apc key iosb) = Objects s"
  "Log (NtRemoveIoCompletion_write s ApcPtr KeyPtr IosbPtr apc key iosb) = Log s"
  "LookasideP (NtRemoveIoCompletion_write s ApcPtr KeyPtr IosbPtr apc key iosb) = LookasideP s"
  "LookasideL (NtRemoveIoCompletion_write s ApcPtr KeyPtr IosbPtr apc key iosb) = LookasideL s"
  "Charged (NtRemoveIoCompletion_write s ApcPtr KeyPtr IosbPtr apc key iosb) = Charged s"
  "Queues (NtRemoveIoCompletion_write s ApcPtr KeyPtr IosbPtr apc key iosb) = Queues s"
  by (simp_all add: NtRemoveIoCompletion_write_def store_def)

lemma NtRemoveIoCompletion_write_mem:
  "UserMem (NtRemoveIoCompletion_write s ApcPtr KeyPtr IosbPtr apc key iosb) =
     (if \<not> Writable s ApcPtr then UserMem s
      else if \<not> Writable s KeyPtr then (UserMem s)(ApcPtr \<mapsto> PointerValue apc)
      else if \<not> Writable s IosbPtr
        then (UserMem s)(ApcPtr \<mapsto> PointerValue apc, KeyPtr \<mapsto> PointerValue key)
      else (UserMem s)(ApcPtr \<mapsto> PointerValue apc, KeyPtr \<mapsto> PointerValue key,
                       IosbPtr \<mapsto> StatusBlockValue iosb))"
  by (simp add: NtRemoveIoCompletion_write_def store_def)

lemma NtRemoveIoCompletion_delivered:
  assumes probe: "NtRemoveIoCompletion_probe s KeyPtr ApcPtr IosbPtr Timeout = Inr ()"
    and handle: "HandleTable s h = Some q"
    and queue: "Queues s q = Some k"
    and rem: "KeRemoveQueue k wait = (RemovedEntry e, k1)"
  shows "NtRemoveIoCompletion s h KeyPtr ApcPtr IosbPtr Timeout wait =
     (case NtRemoveIoCompletion_capture
             (s\<lparr>Log := Log s @ [Referenced q], Queues := (Queues s)(q \<mapsto> k1)\<rparr>) e of
        None \<Rightarrow> None
      | Some (apc, key, iosb, s3) \<Rightarrow>
          Some (STATUS_SUCCESS,
                ObDereferenceObject
                  (NtRemoveIoCompletion_write s3 ApcPtr KeyPtr IosbPtr apc key iosb) q))"
  using probe queue rem
  by (simp add: NtRemoveIoCompletion_def ObReferenceObjectByHandle_valid [OF handle queue]
      NT_SUCCESS_codes split: option.splits)

lemma NtRemoveIoCompletion_status:
  assumes probe: "NtRemoveIoCompletion_probe s KeyPtr ApcPtr IosbPtr Timeout = Inr ()"
    and handle: "HandleTable s h = Some q"
    and queue: "Queues s q = Some k"
    and rem: "KeRemoveQueue k wait = (RemoveStatus st, k)"
  shows "NtRemoveIoCompletion s h KeyPtr ApcPtr IosbPtr Timeout wait =
     Some (st, s\<lparr>Log := Log s @ [Referenced q, Dereferenced q]\<rparr>)"
proof -
  have "(Queues s)(q \<mapsto> k) = Queues s"
    using queue by (simp add: map_upd_triv)
  then show ?thesis
    using probe queue rem
    by (simp add: NtRemoveIoCompletion_def ObReferenceObjectByHandle_valid [OF handle queue]
        NT_SUCCESS_codes ObDereferenceObject_def)
qed

lemma capture_irp:
  assumes "Objects s e = Some (IrpObject irp)"
  shows "NtRemoveIoCompletion_capture s e =
     Some (UserApcContext irp, CompletionKey irp, Irp_IoStatus irp, IoFreeIrp s e)"
  using assms by (simp add: NtRemoveIoCompletion_capture_def)

lemma capture_mini:
  assumes "Objects s e = Some (MiniObject m)" and "PacketType m \<noteq> IopCompletionPacketIrp"
    and "IopFreeMiniPacket s e = Some sf"
  shows "NtRemoveIoCompletion_capture s e =
     Some (ApcContext m, KeyContext m,
           \<lparr>Status = IoStatus m, Information = IoStatusInformation m\<rparr>, sf)"
  using assms by (simp add: NtRemoveIoCompletion_capture_def)

text \<open>
  C2: for an entry that the queue delivers, NtRemoveIoCompletion branches on the packet
  type. An IRP has its APC context, completion key and I/O status block read and is
  then freed by \<open>IoFreeIrp\<close>; a mini packet has its four fields read and is then
  released by \<open>IopFreeMiniPacket\<close>. In both cases the status is \<open>STATUS_SUCCESS\<close>.
  Where none of the three stores through the caller's pointers faults, the caller's
  memory afterwards is the old one with the values read from the entry stored in the
  order APC context, key context, I/O status block (where two pointers are the same
  address, the later store is the one that remains).
\<close>

theorem NtRemoveIoCompletion_extract:
  assumes probe: "NtRemoveIoCompletion_probe s KeyPtr ApcPtr IosbPtr Timeout = Inr ()"
    and handle: "HandleTable s h = Some q"
    and queue: "Queues s q = Some k"
    and rem: "KeRemoveQueue k wait = (RemovedEntry e, k1)"
    and live: "Objects s e = Some ob"
  shows "(\<forall>irp. ob = IrpObject irp \<longrightarrow>
      (\<exists>s'. NtRemoveIoCompletion s h KeyPtr ApcPtr IosbPtr Timeout wait = Some (STATUS_SUCCESS, s') \<and>
         Objects s' = (Objects s)(e := None) \<and>
         Log s' = Log s @ [Referenced q, IrpFreed e, Dereferenced q] \<and>
         LookasideP s' = LookasideP s \<and> LookasideL s' = LookasideL s \<and>
         Queues s' = (Queues s)(q \<mapsto> k1) \<and>
         (Writable s ApcPtr \<and> Writable s KeyPtr \<and> Writable s IosbPtr \<longrightarrow>
            UserMem s' = (UserMem s)(ApcPtr \<mapsto> PointerValue (UserApcContext irp),
                                     KeyPtr \<mapsto> PointerValue (CompletionKey irp),
                                     IosbPtr \<mapsto> StatusBlockValue (Irp_IoStatus irp))))) \<and>
    (\<forall>m. ob = MiniObject m \<and> PacketType m \<noteq> IopCompletionPacketIrp \<longrightarrow>
      (\<exists>sf s'. IopFreeMiniPacket
                 (s\<lparr>Log := Log s @ [Referenced q], Queues := (Queues s)(q \<mapsto> k1)\<rparr>) e = Some sf \<and>
         NtRemoveIoCompletion s h KeyPtr ApcPtr IosbPtr Timeout wait = Some (STATUS_SUCCESS, s') \<and>
         Objects s' = Objects sf \<and> Objects s' e = None \<and>
         LookasideP s' = LookasideP sf \<and> LookasideL s' = LookasideL sf \<and>
         Charged s' = Charged sf \<and> Log s' = Log sf @ [Dereferenced q] \<and>
         Queues s' = (Queues s)(q \<mapsto> k1) \<and>
         (Writable s ApcPtr \<and> Writable s KeyPtr \<and> Writable s IosbPtr \<longrightarrow>
            UserMem s' = (UserMem s)(ApcPtr \<mapsto> PointerValue (ApcContext m),
                                     KeyPtr \<mapsto> PointerValue (KeyContext m),
                                     IosbPtr \<mapsto> StatusBlockValue
                                       \<lparr>Status = IoStatus m,
                                        Information = IoStatusInformation m\<rparr>))))"
proof (intro conjI allI impI)
  let ?s2 = "s\<lparr>Log := Log s @ [Referenced q], Queues := (Queues s)(q \<mapsto> k1)\<rparr>"
  note run = NtRemoveIoCompletion_delivered [OF probe handle queue rem]
  {
    fix irp
    assume ob: "ob = IrpObject irp"
    have live2: "Objects ?s2 e = Some (IrpObject irp)" using live ob by simp
    let ?w = "NtRemoveIoCompletion_write (IoFreeIrp ?s2 e) ApcPtr KeyPtr IosbPtr
                (UserApcContext irp) (CompletionKey irp) (Irp_IoStatus irp)"
    have "NtRemoveIoCompletion s h KeyPtr ApcPtr IosbPtr Timeout wait =
            Some (STATUS_SUCCESS, ObDereferenceObject ?w q)"
      by (simp add: run capture_irp [OF live2])
    moreover have "Objects (ObDereferenceObject ?w q) = (Objects s)(e := None)"
      "Log (ObDereferenceObject ?w q) = Log s @ [Referenced q, IrpFreed e, Dereferenced q]"
      "LookasideP (ObDereferenceObject ?w q) = LookasideP s"
      "LookasideL (ObDereferenceObject ?w q) = LookasideL s"
      "Queues (ObDereferenceObject ?w q) = (Queues s)(q \<mapsto> k1)"
      by (simp_all add: ObDereferenceObject_def NtRemoveIoCompletion_write_frame IoFreeIrp_def)
    moreover have "Writable s ApcPtr \<and> Writable s KeyPtr \<and> Writable s IosbPtr \<longrightarrow>
        UserMem (ObDereferenceObject ?w q) =
          (UserMem s)(ApcPtr \<mapsto> PointerValue (UserApcContext irp),
                      KeyPtr \<mapsto> PointerValue (CompletionKey irp),
                      IosbPtr \<mapsto> StatusBlockValue (Irp_IoStatus irp))"
      by (simp add: ObDereferenceObject_def NtRemoveIoCompletion_write_mem IoFreeIrp_def)
    ultimately show "\<exists>s'. NtRemoveIoCompletion s h KeyPtr ApcPtr IosbPtr Timeout wait =
           Some (STATUS_SUCCESS, s') \<and>
         Objects s' = (Objects s)(e := None) \<and>
         Log s' = Log s @ [Referenced q, IrpFreed e, Dereferenced q] \<and>
         LookasideP s' = LookasideP s \<and> LookasideL s' = LookasideL s \<and>
         Queues s' = (Queues s)(q \<mapsto> k1) \<and>
         (Writable s ApcPtr \<and> Writable s KeyPtr \<and> Writable s IosbPtr \<longrightarrow>
            UserMem s' = (UserMem s)(ApcPtr \<mapsto> PointerValue (UserApcContext irp),
                                     KeyPtr \<mapsto> PointerValue (CompletionKey irp),
                                     IosbPtr \<mapsto> StatusBlockValue (Irp_IoStatus irp)))"
      by blast
  }
  {
    fix m
    assume ob: "ob = MiniObject m \<and> PacketType m \<noteq> IopCompletionPacketIrp"
    have live2: "Objects ?s2 e = Some (MiniObject m)" using live ob by simp
    obtain sf where free: "IopFreeMiniPacket ?s2 e = Some sf"
      using IopFreeMiniPacket_total [OF live2] by blast
    note fr = IopFreeMiniPacket_frame [OF free]
    let ?iosb = "\<lparr>Status = IoStatus m, Information = IoStatusInformation m\<rparr>"
    let ?w = "NtRemoveIoCompletion_write sf ApcPtr KeyPtr IosbPtr (ApcContext m) (KeyContext m) ?iosb"
    have "NtRemoveIoCompletion s h KeyPtr ApcPtr IosbPtr Timeout wait =
            Some (STATUS_SUCCESS, ObDereferenceObject ?w q)"
      using ob by (simp add: run capture_mini [OF live2 _ free])
    moreover have "Objects (ObDereferenceObject ?w q) = Objects sf"
      "Objects (ObDereferenceObject ?w q) e = None"
      "LookasideP (ObDereferenceObject ?w q) = LookasideP sf"
      "LookasideL (ObDereferenceObject ?w q) = LookasideL sf"
      "Charged (ObDereferenceObject ?w q) = Charged sf"
      "Log (ObDereferenceObject ?w q) = Log sf @ [Dereferenced q]"
      "Queues (ObDereferenceObject ?w q) = (Queues s)(q \<mapsto> k1)"
      using fr by (simp_all add: ObDereferenceObject_def NtRemoveIoCompletion_write_frame)
    moreover have "Writable s ApcPtr \<and> Writable s KeyPtr \<and> Writable s IosbPtr \<longrightarrow>
        UserMem (ObDereferenceObject ?w q) =
          (UserMem s)(ApcPtr \<mapsto> PointerValue (ApcContext m),
                      KeyPtr \<mapsto> PointerValue (KeyContext m),
                      IosbPtr \<mapsto> StatusBlockValue ?iosb)"
      using fr by (simp add: ObDereferenceObject_def NtRemoveIoCompletion_write_mem)
    ultimately show "\<exists>sf s'. IopFreeMiniPacket ?s2 e = Some sf \<and>
         NtRemoveIoCompletion s h KeyPtr ApcPtr IosbPtr Timeout wait = Some (STATUS_SUCCESS, s') \<and>
         Objects s' = Objects sf \<and> Objects s' e = None \<and>
         LookasideP s' = LookasideP sf \<and> LookasideL s' = LookasideL sf \<and>
         Charged s' = Charged sf \<and> Log s' = Log sf @ [Dereferenced q] \<and>
         Queues s' = (Queues s)(q \<mapsto> k1) \<and>
         (Writable s ApcPtr \<and> Writable s KeyPtr \<and> Writable s IosbPtr \<longrightarrow>
            UserMem s' = (UserMem s)(ApcPtr \<mapsto> PointerValue (ApcContext m),
                                     KeyPtr \<mapsto> PointerValue (KeyContext m),
                                     IosbPtr \<mapsto> StatusBlockValue ?iosb))"
      using free by blast
  }
qed

theorem NtRemoveIoCompletion_extract_witness:
  "(\<exists>s'. NtRemoveIoCompletion kernel3 1 8 16 24 None WaitExpired = Some (STATUS_SUCCESS, s') \<and>
          UserMem s' = [16 \<mapsto> PointerValue 5, 8 \<mapsto> PointerValue 6,
                        24 \<mapsto> StatusBlockValue \<lparr>Status = 0, Information = 7\<rparr>] \<and>
          Log s' = [Referenced 100, IrpFreed 20, Dereferenced 100]) \<and>
   (\<exists>s'. NtRemoveIoCompletion kernel2 1 8 16 24 None WaitExpired = Some (STATUS_SUCCESS, s') \<and>
          UserMem s' = [16 \<mapsto> PointerValue 2, 8 \<mapsto> PointerValue 1,
                        24 \<mapsto> StatusBlockValue \<lparr>Status = 0, Information = 3\<rparr>] \<and>
          Objects s' 10 = None)"
proof -
  have probe3: "NtRemoveIoCompletion_probe kernel3 8 16 24 None = Inr ()"
    and probe2: "NtRemoveIoCompletion_probe kernel2 8 16 24 None = Inr ()"
    by (simp_all add: NtRemoveIoCompletion_probe_def Probe_def kernel3_def kernel2_def kernel0_def)
  have h3: "HandleTable kernel3 1 = Some 100"
    and q3: "Queues kernel3 100 = Some \<lparr>EntryListHead = [20, 10], CurrentCount = 0, MaximumCount = 2\<rparr>"
    and o3: "Objects kernel3 20 = Some (IrpObject irp20)"
    and h2: "HandleTable kernel2 1 = Some 100"
    and q2: "Queues kernel2 100 = Some \<lparr>EntryListHead = [10, 20], CurrentCount = 0, MaximumCount = 2\<rparr>"
    and o2: "Objects kernel2 10 = Some (MiniObject packet10)"
    and w: "Writable kernel3 16" "Writable kernel3 8" "Writable kernel3 24"
      "Writable kernel2 16" "Writable kernel2 8" "Writable kernel2 24"
    and m: "UserMem kernel3 = Map.empty" "UserMem kernel2 = Map.empty" "Log kernel3 = []"
    by (simp_all add: kernel3_def kernel2_def kernel0_def)
  have r3: "KeRemoveQueue \<lparr>EntryListHead = [20, 10], CurrentCount = 0, MaximumCount = 2\<rparr> WaitExpired =
      (RemovedEntry 20, \<lparr>EntryListHead = [10], CurrentCount = 1, MaximumCount = 2\<rparr>)"
    and r2: "KeRemoveQueue \<lparr>EntryListHead = [10, 20], CurrentCount = 0, MaximumCount = 2\<rparr> WaitExpired =
      (RemovedEntry 10, \<lparr>EntryListHead = [20], CurrentCount = 1, MaximumCount = 2\<rparr>)"
    by (simp_all add: KeRemoveQueue_def)
  from NtRemoveIoCompletion_extract [OF probe3 h3 q3 r3 o3]
  have a: "\<exists>s'. NtRemoveIoCompletion kernel3 1 8 16 24 None WaitExpired = Some (STATUS_SUCCESS, s') \<and>
          UserMem s' = [16 \<mapsto> PointerValue 5, 8 \<mapsto> PointerValue 6,
                        24 \<mapsto> StatusBlockValue \<lparr>Status = 0, Information = 7\<rparr>] \<and>
          Log s' = [Referenced 100, IrpFreed 20, Dereferenced 100]"
    using w m by (clarsimp simp: irp20_def)
  from NtRemoveIoCompletion_extract [OF probe2 h2 q2 r2 o2]
  have b: "\<exists>s'. NtRemoveIoCompletion kernel2 1 8 16 24 None WaitExpired = Some (STATUS_SUCCESS, s') \<and>
          UserMem s' = [16 \<mapsto> PointerValue 2, 8 \<mapsto> PointerValue 1,
                        24 \<mapsto> StatusBlockValue \<lparr>Status = 0, Information = 3\<rparr>] \<and>
          Objects s' 10 = None"
    using w m by (clarsimp simp: packet10_def)
  from a b show ?thesis by blast
qed

text \<open>
  A removal whose first store faults: on \<open>kernel2\<close> the queue delivers
  the packet at 10, whose APC context is 2, and the caller's pointer for the APC
  context is address 32, which passes its probe but cannot be written. The status is
  \<open>STATUS_SUCCESS\<close>, the packet is released, and the caller's memory is as it was:
  none of the four values has reached the caller.
\<close>

theorem NtRemoveIoCompletion_store_faults:
  "NtRemoveIoCompletion_probe kernel2 8 32 24 None = Inr () \<and>
   HandleTable kernel2 1 = Some 100 \<and> Queues kernel2 100 = Some queue2 \<and>
   KeRemoveQueue queue2 WaitExpired = (RemovedEntry 10, queue2_removed) \<and>
   Objects kernel2 10 = Some (MiniObject packet10) \<and>
   PacketType packet10 = IopCompletionPacketQuota \<and> ApcContext packet10 = 2 \<and>
   NtRemoveIoCompletion kernel2 1 8 32 24 None WaitExpired =
     Some (STATUS_SUCCESS, kernel2_removed) \<and>
   UserMem kernel2_removed = UserMem kernel2 \<and>
   UserMem kernel2_removed 32 = None \<and> UserMem kernel2_removed 8 = None \<and>
   UserMem kernel2_removed 24 = None \<and>
   Objects kernel2_removed 10 = None"
proof -
  have probe: "NtRemoveIoCompletion_probe kernel2 8 32 24 None = Inr ()"
    by (simp add: NtRemoveIoCompletion_probe_def Probe_def kernel2_def kernel0_def)
  have handle: "HandleTable kernel2 1 = Some 100" and queue: "Queues kernel2 100 = Some queue2"
    and live: "Objects kernel2 10 = Some (MiniObject packet10)"
    by (simp_all add: kernel2_def kernel0_def queue2_def)
  have rem: "KeRemoveQueue queue2 WaitExpired = (RemovedEntry 10, queue2_removed)"
    by (simp add: KeRemoveQueue_def queue2_def queue2_removed_def)
  let ?s2 = "kernel2\<lparr>Log := Log kernel2 @ [Referenced 100],
                     Queues := (Queues kernel2)(100 \<mapsto> queue2_removed)\<rparr>"
  have live2: "Objects ?s2 10 = Some (MiniObject packet10)" using live by simp
  have room: "length (ListHead (LookasideP ?s2)) < Depth (LookasideP ?s2)"
    by (simp add: kernel2_def kernel0_def lookaside0_def)
  have ty: "PacketType packet10 \<noteq> IopCompletionPacketIrp" by (simp add: packet10_def)
  let ?sf = "kernel2\<lparr>Objects := [20 \<mapsto> IrpObject irp20],
             LookasideP := lookaside0\<lparr>ListHead := [10], TotalFrees := 1\<rparr>,
             Charged := {},
             Log := [Referenced 100, QuotaReturned 10],
             Queues := [100 \<mapsto> queue2_removed]\<rparr>"
  have free: "IopFreeMiniPacket ?s2 10 = Some ?sf"
    unfolding IopFreeMiniPacket_P [OF live2 room]
    by (simp add: ExReturnPoolQuota_def packet10_def kernel2_def kernel0_def lookaside0_def
        fun_upd_twist)
  have cap: "NtRemoveIoCompletion_capture ?s2 10 =
      Some (ApcContext packet10, KeyContext packet10,
            \<lparr>Status = IoStatus packet10, Information = IoStatusInformation packet10\<rparr>, ?sf)"
    by (rule capture_mini [OF live2 ty free])
  have nw: "\<not> Writable ?sf 32" by (simp add: kernel2_def kernel0_def)
  have run: "NtRemoveIoCompletion kernel2 1 8 32 24 None WaitExpired =
      Some (STATUS_SUCCESS, kernel2_removed)"
    unfolding NtRemoveIoCompletion_delivered [OF probe handle queue rem] cap
    using nw
    by (simp add: NtRemoveIoCompletion_write_def store_def ObDereferenceObject_def
        kernel2_removed_def)
  show ?thesis
    using probe handle queue rem live run
    by (simp add: kernel2_removed_def kernel2_def kernel0_def packet10_def)
qed

subsection \<open>A wait that ends without an entry\<close>

lemma KeRemoveQueue_waits:
  assumes "EntryListHead k = [] \<or> \<not> CurrentCount k < MaximumCount k"
  shows "KeRemoveQueue k WaitExpired = (RemoveStatus STATUS_TIMEOUT, k)"
    and "KeRemoveQueue k WaitAlerted = (RemoveStatus STATUS_USER_APC, k)"
  using assms
  by (auto simp: KeRemoveQueue_def KeRemoveQueue_blocked_def split: list.splits)

text \<open>
  C6: on a port where the caller has to wait (no entry is pending or the ceiling is
  reached), NtRemoveIoCompletion returns \<open>STATUS_TIMEOUT\<close> when the timeout elapses
  and \<open>STATUS_USER_APC\<close> when the wait is aborted. In both outcomes the state differs
  only by the reference taken and released: the queue keeps its entries, no packet or
  IRP is freed, and nothing is stored through the caller's pointers.
\<close>

theorem NtRemoveIoCompletion_no_entry:
  assumes probe: "NtRemoveIoCompletion_probe s KeyPtr ApcPtr IosbPtr Timeout = Inr ()"
    and handle: "HandleTable s h = Some q"
    and queue: "Queues s q = Some k"
    and waits: "EntryListHead k = [] \<or> \<not> CurrentCount k < MaximumCount k"
  shows "NtRemoveIoCompletion s h KeyPtr ApcPtr IosbPtr Timeout WaitExpired =
           Some (STATUS_TIMEOUT, s\<lparr>Log := Log s @ [Referenced q, Dereferenced q]\<rparr>) \<and>
         NtRemoveIoCompletion s h KeyPtr ApcPtr IosbPtr Timeout WaitAlerted =
           Some (STATUS_USER_APC, s\<lparr>Log := Log s @ [Referenced q, Dereferenced q]\<rparr>)"
  using NtRemoveIoCompletion_status [OF probe handle queue KeRemoveQueue_waits(1) [OF waits]]
    NtRemoveIoCompletion_status [OF probe handle queue KeRemoveQueue_waits(2) [OF waits]]
  by simp

theorem NtRemoveIoCompletion_no_entry_witness:
  "NtRemoveIoCompletion kernel0 1 8 16 24 (Some 40) WaitExpired =
     Some (STATUS_TIMEOUT, kernel0\<lparr>Log := [Referenced 100, Dereferenced 100]\<rparr>) \<and>
   NtRemoveIoCompletion kernel2_ceiling 1 8 16 24 None WaitAlerted =
     Some (STATUS_USER_APC, kernel2_ceiling\<lparr>Log := [Referenced 100, Dereferenced 100]\<rparr>)"
proof -
  have probe0: "NtRemoveIoCompletion_probe kernel0 8 16 24 (Some 40) = Inr ()"
    and probe2: "NtRemoveIoCompletion_probe kernel2_ceiling 8 16 24 None = Inr ()"
    by (simp_all add: NtRemoveIoCompletion_probe_def Probe_def kernel2_ceiling_def kernel2_def
        kernel0_def)
  have h0: "HandleTable kernel0 1 = Some 100"
    and q0: "Queues kernel0 100 = Some \<lparr>EntryListHead = [], CurrentCount = 0, MaximumCount = 2\<rparr>"
    and h2: "HandleTable kernel2_ceiling 1 = Some 100"
    and q2: "Queues kernel2_ceiling 100 =
               Some \<lparr>EntryListHead = [10, 20], CurrentCount = 2, MaximumCount = 2\<rparr>"
    and l: "Log kernel0 = []" "Log kernel2_ceiling = []"
    by (simp_all add: kernel2_ceiling_def kernel2_def kernel0_def)
  have w0: "EntryListHead \<lparr>EntryListHead = [], CurrentCount = 0, MaximumCount = 2\<rparr> = [] \<or>
      \<not> CurrentCount \<lparr>EntryListHead = [], CurrentCount = 0, MaximumCount = 2\<rparr>
        < MaximumCount \<lparr>EntryListHead = ([]::addr list), CurrentCount = 0, MaximumCount = 2\<rparr>"
    and w2: "EntryListHead \<lparr>EntryListHead = [10, 20], CurrentCount = 2, MaximumCount = 2\<rparr> = [] \<or>
      \<not> CurrentCount \<lparr>EntryListHead = [10, 20], CurrentCount = 2, MaximumCount = 2\<rparr>
        < MaximumCount \<lparr>EntryListHead = [10, 20::addr], CurrentCount = 2, MaximumCount = 2\<rparr>"
    by simp_all
  show ?thesis
    using NtRemoveIoCompletion_no_entry [OF probe0 h0 q0 w0]
      NtRemoveIoCompletion_no_entry [OF probe2 h2 q2 w2] l
    by simp
qed

subsection \<open>Faulting stores after the release\<close>




subsection \<open>Teardown\<close>

lemma circular_Flink_at:
  assumes "distinct (pre @ x # post)"
  shows "circular_Flink (pre @ x # post) x =
     Some (case post of [] \<Rightarrow> hd (pre @ [x]) | y # r \<Rightarrow> y)"
proof -
  let ?es = "pre @ x # post"
  let ?i = "length pre"
  have i: "?i < length ?es" by simp
  have "map_of (zip ?es (rotate1 ?es)) (?es ! ?i) = Some (rotate1 ?es ! ?i)"
    using assms i by (intro map_of_zip_nth) simp_all
  moreover have "rotate1 ?es ! ?i = ?es ! (Suc ?i mod length ?es)"
    using i by (rule nth_rotate1)
  moreover have "?es ! (Suc ?i mod length ?es) = (case post of [] \<Rightarrow> hd (pre @ [x]) | y # r \<Rightarrow> y)"
  proof (cases post)
    case Nil
    then show ?thesis by (cases pre) simp_all
  next
    case (Cons y r)
    then have "Suc ?i mod length ?es = Suc ?i" by simp
    then show ?thesis using Cons by (simp add: nth_append)
  qed
  ultimately show ?thesis by (simp add: circular_Flink_def)
qed

text \<open>The do-while loop over the circular chain releases the entries one after the other.\<close>

lemma IopDeleteIoCompletion_loop_release_each:
  assumes "distinct (pre @ x # post)"
  shows "IopDeleteIoCompletion_loop (circular_Flink (pre @ x # post)) (hd (pre @ [x])) x s =
     release_each s (x # post)"
  using assms
proof (induction post arbitrary: pre x s)
  case Nil
  show ?case
    using circular_Flink_at [OF Nil.prems]
    by (subst IopDeleteIoCompletion_loop.simps) (simp split: option.splits)
next
  case (Cons y post)
  have flink: "circular_Flink (pre @ x # y # post) x = Some y"
    using circular_Flink_at [OF Cons.prems] by simp
  have ne: "hd (pre @ [x]) \<noteq> y"
    using Cons.prems by (cases pre) auto
  have d: "distinct ((pre @ [x]) @ y # post)" using Cons.prems by simp
  have hd_eq: "hd (pre @ [x, y]) = hd (pre @ [x])" by (cases pre) simp_all
  have IH: "\<And>s1. IopDeleteIoCompletion_loop (circular_Flink (pre @ x # y # post)) (hd (pre @ [x])) y s1 =
      release_each s1 (y # post)"
    using Cons.IH [OF d] by (simp add: hd_eq)
  show ?case
    by (subst IopDeleteIoCompletion_loop.simps) (simp add: flink ne IH split: option.splits)
qed

lemma IopDeleteIoCompletion_release_each:
  assumes queue: "Queues s q = Some k" and d: "distinct (EntryListHead k)"
  shows "IopDeleteIoCompletion s q =
     release_each (s\<lparr>Queues := (Queues s)(q \<mapsto> k\<lparr>EntryListHead := []\<rparr>)\<rparr>) (EntryListHead k)"
proof (cases "EntryListHead k")
  case Nil
  then show ?thesis using queue
    by (simp add: IopDeleteIoCompletion_def KeRundownQueue_def)
next
  case (Cons e r)
  have "distinct ([] @ e # r)" using d Cons by simp
  from IopDeleteIoCompletion_loop_release_each [OF this]
  show ?thesis using queue Cons
    by (simp add: IopDeleteIoCompletion_def KeRundownQueue_def)
qed

subsection \<open>What a release does to the counts\<close>

text \<open>
  The effect of IopFreeMiniPacket on a live packet: the packet is gone as an object
  and lands exactly once, on a lookaside list or in pool. If its type records its
  charge, the charge is returned exactly once and the packet carries none afterwards.
\<close>

lemma IopFreeMiniPacket_effect:
  assumes live: "Objects s p = Some (MiniObject m)"
  shows "\<exists>s'. IopFreeMiniPacket s p = Some s' \<and>
     Objects s' = (Objects s)(p := None) \<and>
     Queues s' = Queues s \<and> UserMem s' = UserMem s \<and>
     (\<forall>a. count_list (Log s') (QuotaCharged a) = count_list (Log s) (QuotaCharged a)) \<and>
     (\<forall>a. count_list (Log s') (IrpFreed a) = count_list (Log s) (IrpFreed a)) \<and>
     (\<forall>a. count_list (Log s') (PoolFreed a) + count_list (ListHead (LookasideP s')) a +
            count_list (ListHead (LookasideL s')) a =
          count_list (Log s) (PoolFreed a) + count_list (ListHead (LookasideP s)) a +
            count_list (ListHead (LookasideL s)) a + (if a = p then 1 else 0)) \<and>
     ((p \<in> Charged s) = (PacketType m = IopCompletionPacketQuota) \<longrightarrow>
        Charged s' = Charged s - {p} \<and>
        (\<forall>a. count_list (Log s') (QuotaReturned a) =
            count_list (Log s) (QuotaReturned a) + (if a = p \<and> p \<in> Charged s then 1 else 0))) \<and>
     (\<exists>xs ys. ListHead (LookasideP s') = xs @ ListHead (LookasideP s) \<and>
              ListHead (LookasideL s') = ys @ ListHead (LookasideL s) \<and>
              set (xs @ ys) \<subseteq> {p} \<and> length (xs @ ys) \<le> 1)"
proof -
  consider (P) "length (ListHead (LookasideP s)) < Depth (LookasideP s)"
    | (L) "\<not> length (ListHead (LookasideP s)) < Depth (LookasideP s)"
          "length (ListHead (LookasideL s)) < Depth (LookasideL s)"
    | (pool) "\<not> length (ListHead (LookasideP s)) < Depth (LookasideP s)"
          "\<not> length (ListHead (LookasideL s)) < Depth (LookasideL s)"
    by blast
  then show ?thesis
  proof cases
    case P
    show ?thesis
      by (simp add: IopFreeMiniPacket_P [OF live P] ExReturnPoolQuota_def;
          intro conjI impI allI; simp)
  next
    case L
    show ?thesis
      by (simp add: IopFreeMiniPacket_L [OF live L] ExReturnPoolQuota_def;
          intro conjI impI allI; simp)
  next
    case pool
    show ?thesis
      by (simp add: IopFreeMiniPacket_pool [OF pool] ExFreePool_def ExReturnPoolQuota_def Let_def;
          intro conjI impI allI; simp)
  qed
qed

lemma IopDeleteIoCompletion_release_effect:
  assumes live: "Objects s e = Some ob" and valid: "valid_entry ob"
  shows "\<exists>s'. IopDeleteIoCompletion_release s e = Some s' \<and>
     Objects s' = (Objects s)(e := None) \<and>
     Queues s' = Queues s \<and> UserMem s' = UserMem s \<and>
     (\<forall>a. count_list (Log s') (QuotaCharged a) = count_list (Log s) (QuotaCharged a)) \<and>
     (\<forall>a. count_list (Log s') (IrpFreed a) =
            count_list (Log s) (IrpFreed a) +
              (if a = e \<and> PacketType_of ob = IopCompletionPacketIrp then 1 else 0)) \<and>
     (\<forall>a. count_list (Log s') (PoolFreed a) + count_list (ListHead (LookasideP s')) a +
            count_list (ListHead (LookasideL s')) a =
          count_list (Log s) (PoolFreed a) + count_list (ListHead (LookasideP s)) a +
            count_list (ListHead (LookasideL s)) a +
              (if a = e \<and> PacketType_of ob \<noteq> IopCompletionPacketIrp then 1 else 0)) \<and>
     ((e \<in> Charged s) = (PacketType_of ob = IopCompletionPacketQuota) \<longrightarrow>
        Charged s' = Charged s - {e} \<and>
        (\<forall>a. count_list (Log s') (QuotaReturned a) =
            count_list (Log s) (QuotaReturned a) + (if a = e \<and> e \<in> Charged s then 1 else 0))) \<and>
     (\<exists>xs ys. ListHead (LookasideP s') = xs @ ListHead (LookasideP s) \<and>
              ListHead (LookasideL s') = ys @ ListHead (LookasideL s) \<and>
              set (xs @ ys) \<subseteq> {e} \<and> length (xs @ ys) \<le> 1)"
proof (cases ob)
  case (IrpObject irp)
  then have "IopDeleteIoCompletion_release s e = Some (IoFreeIrp s e)"
    using live by (simp add: IopDeleteIoCompletion_release_def)
  then show ?thesis using IrpObject
    by (simp add: IoFreeIrp_def; intro conjI impI allI; simp)
next
  case (MiniObject m)
  then have live': "Objects s e = Some (MiniObject m)"
    and ty: "PacketType m \<noteq> IopCompletionPacketIrp"
    using live valid by simp_all
  have eq: "IopDeleteIoCompletion_release s e = IopFreeMiniPacket s e"
    using live' ty by (simp add: IopDeleteIoCompletion_release_def)
  have ne: "PacketType_of ob \<noteq> IopCompletionPacketIrp"
    and ty_eq: "PacketType_of ob = PacketType m"
    using MiniObject ty by simp_all
  from IopFreeMiniPacket_effect [OF live']
  obtain s' xs ys where run: "IopFreeMiniPacket s e = Some s'"
    and o: "Objects s' = (Objects s)(e := None)"
    and f: "Queues s' = Queues s" "UserMem s' = UserMem s"
    and q: "\<forall>a. count_list (Log s') (QuotaCharged a) = count_list (Log s) (QuotaCharged a)"
    and i: "\<forall>a. count_list (Log s') (IrpFreed a) = count_list (Log s) (IrpFreed a)"
    and l: "\<forall>a. count_list (Log s') (PoolFreed a) + count_list (ListHead (LookasideP s')) a +
            count_list (ListHead (LookasideL s')) a =
          count_list (Log s) (PoolFreed a) + count_list (ListHead (LookasideP s)) a +
            count_list (ListHead (LookasideL s)) a + (if a = e then 1 else 0)"
    and c: "(e \<in> Charged s) = (PacketType m = IopCompletionPacketQuota) \<longrightarrow>
        Charged s' = Charged s - {e} \<and>
        (\<forall>a. count_list (Log s') (QuotaReturned a) =
            count_list (Log s) (QuotaReturned a) + (if a = e \<and> e \<in> Charged s then 1 else 0))"
    and p: "ListHead (LookasideP s') = xs @ ListHead (LookasideP s)"
      "ListHead (LookasideL s') = ys @ ListHead (LookasideL s)"
      "set (xs @ ys) \<subseteq> {e}" "length (xs @ ys) \<le> 1"
    by (elim exE conjE) (rule that, assumption+)
  show ?thesis
  proof (intro exI conjI)
    show "IopDeleteIoCompletion_release s e = Some s'" using eq run by simp
    show "Objects s' = (Objects s)(e := None)" by (rule o)
    show "Queues s' = Queues s" "UserMem s' = UserMem s" by (rule f)+
    show "\<forall>a. count_list (Log s') (QuotaCharged a) = count_list (Log s) (QuotaCharged a)"
      by (rule q)
    show "\<forall>a. count_list (Log s') (IrpFreed a) =
            count_list (Log s) (IrpFreed a) +
              (if a = e \<and> PacketType_of ob = IopCompletionPacketIrp then 1 else 0)"
      using i ne by simp
    show "\<forall>a. count_list (Log s') (PoolFreed a) + count_list (ListHead (LookasideP s')) a +
            count_list (ListHead (LookasideL s')) a =
          count_list (Log s) (PoolFreed a) + count_list (ListHead (LookasideP s)) a +
            count_list (ListHead (LookasideL s)) a +
              (if a = e \<and> PacketType_of ob \<noteq> IopCompletionPacketIrp then 1 else 0)"
      using l ne by simp
    show "(e \<in> Charged s) = (PacketType_of ob = IopCompletionPacketQuota) \<longrightarrow>
        Charged s' = Charged s - {e} \<and>
        (\<forall>a. count_list (Log s') (QuotaReturned a) =
            count_list (Log s) (QuotaReturned a) + (if a = e \<and> e \<in> Charged s then 1 else 0))"
      using c by (simp only: ty_eq)
    show "ListHead (LookasideP s') = xs @ ListHead (LookasideP s)"
      "ListHead (LookasideL s') = ys @ ListHead (LookasideL s)"
      "set (xs @ ys) \<subseteq> {e}" "length (xs @ ys) \<le> 1"
      by (rule p)+
  qed
qed

text \<open>
  Releasing a list of distinct valid entries one after the other: every entry is gone
  as an object, every IRP among them is freed exactly once and every packet among
  them lands exactly once; where the types of the entries record their charges, every
  charge among them is returned exactly once.
\<close>

lemma release_each_effect:
  assumes "distinct es"
    and "\<forall>e\<in>set es. \<exists>ob. Objects s e = Some ob \<and> valid_entry ob"
  shows "\<exists>s'. release_each s es = Some s' \<and>
     (\<forall>a. Objects s' a = (if a \<in> set es then None else Objects s a)) \<and>
     Queues s' = Queues s \<and> UserMem s' = UserMem s \<and>
     (\<forall>a. count_list (Log s') (QuotaCharged a) = count_list (Log s) (QuotaCharged a)) \<and>
     (\<forall>a. count_list (Log s') (IrpFreed a) =
            count_list (Log s) (IrpFreed a) +
              (if a \<in> set es \<and> (\<exists>irp. Objects s a = Some (IrpObject irp)) then 1 else 0)) \<and>
     (\<forall>a. count_list (Log s') (PoolFreed a) + count_list (ListHead (LookasideP s')) a +
            count_list (ListHead (LookasideL s')) a =
          count_list (Log s) (PoolFreed a) + count_list (ListHead (LookasideP s)) a +
            count_list (ListHead (LookasideL s)) a +
              (if a \<in> set es \<and> (\<exists>m. Objects s a = Some (MiniObject m)) then 1 else 0)) \<and>
     ((\<forall>e\<in>set es. \<forall>ob. Objects s e = Some ob \<longrightarrow>
          (e \<in> Charged s) = (PacketType_of ob = IopCompletionPacketQuota)) \<longrightarrow>
        Charged s' = Charged s - set es \<and>
        (\<forall>a. count_list (Log s') (QuotaReturned a) =
            count_list (Log s) (QuotaReturned a) +
              (if a \<in> set es \<and> a \<in> Charged s then 1 else 0))) \<and>
     (\<exists>xs ys. ListHead (LookasideP s') = xs @ ListHead (LookasideP s) \<and>
              ListHead (LookasideL s') = ys @ ListHead (LookasideL s) \<and>
              set (xs @ ys) \<subseteq> set es \<and> distinct (xs @ ys))"
  using assms
proof (induction es arbitrary: s)
  case Nil
  show ?case by simp
next
  case (Cons e es)
  obtain ob where live: "Objects s e = Some ob" and valid: "valid_entry ob"
    using Cons.prems(2) by auto
  from IopDeleteIoCompletion_release_effect [OF live valid]
  obtain s1 xs1 ys1 where step: "IopDeleteIoCompletion_release s e = Some s1"
    and o1: "Objects s1 = (Objects s)(e := None)"
    and f1: "Queues s1 = Queues s" "UserMem s1 = UserMem s"
    and q1: "\<forall>a. count_list (Log s1) (QuotaCharged a) = count_list (Log s) (QuotaCharged a)"
    and i1: "\<forall>a. count_list (Log s1) (IrpFreed a) =
            count_list (Log s) (IrpFreed a) +
              (if a = e \<and> PacketType_of ob = IopCompletionPacketIrp then 1 else 0)"
    and l1: "\<forall>a. count_list (Log s1) (PoolFreed a) + count_list (ListHead (LookasideP s1)) a +
            count_list (ListHead (LookasideL s1)) a =
          count_list (Log s) (PoolFreed a) + count_list (ListHead (LookasideP s)) a +
            count_list (ListHead (LookasideL s)) a +
              (if a = e \<and> PacketType_of ob \<noteq> IopCompletionPacketIrp then 1 else 0)"
    and c1: "(e \<in> Charged s) = (PacketType_of ob = IopCompletionPacketQuota) \<longrightarrow>
        Charged s1 = Charged s - {e} \<and>
        (\<forall>a. count_list (Log s1) (QuotaReturned a) =
            count_list (Log s) (QuotaReturned a) + (if a = e \<and> e \<in> Charged s then 1 else 0))"
    and p1: "ListHead (LookasideP s1) = xs1 @ ListHead (LookasideP s)"
      "ListHead (LookasideL s1) = ys1 @ ListHead (LookasideL s)"
      "set (xs1 @ ys1) \<subseteq> {e}" "length (xs1 @ ys1) \<le> 1"
    by (elim exE conjE) (rule that, assumption+)
  have e: "e \<notin> set es" and d: "distinct es" using Cons.prems(1) by simp_all
  have rest: "\<forall>e'\<in>set es. \<exists>ob. Objects s1 e' = Some ob \<and> valid_entry ob"
    using Cons.prems(2) e by (auto simp: o1)
  from Cons.IH [OF d rest]
  obtain s' xs ys where run: "release_each s1 es = Some s'"
    and o: "\<forall>a. Objects s' a = (if a \<in> set es then None else Objects s1 a)"
    and f: "Queues s' = Queues s1" "UserMem s' = UserMem s1"
    and q: "\<forall>a. count_list (Log s') (QuotaCharged a) = count_list (Log s1) (QuotaCharged a)"
    and i: "\<forall>a. count_list (Log s') (IrpFreed a) =
            count_list (Log s1) (IrpFreed a) +
              (if a \<in> set es \<and> (\<exists>irp. Objects s1 a = Some (IrpObject irp)) then 1 else 0)"
    and l: "\<forall>a. count_list (Log s') (PoolFreed a) + count_list (ListHead (LookasideP s')) a +
            count_list (ListHead (LookasideL s')) a =
          count_list (Log s1) (PoolFreed a) + count_list (ListHead (LookasideP s1)) a +
            count_list (ListHead (LookasideL s1)) a +
              (if a \<in> set es \<and> (\<exists>m. Objects s1 a = Some (MiniObject m)) then 1 else 0)"
    and c: "(\<forall>e\<in>set es. \<forall>ob. Objects s1 e = Some ob \<longrightarrow>
          (e \<in> Charged s1) = (PacketType_of ob = IopCompletionPacketQuota)) \<longrightarrow>
        Charged s' = Charged s1 - set es \<and>
        (\<forall>a. count_list (Log s') (QuotaReturned a) =
            count_list (Log s1) (QuotaReturned a) +
              (if a \<in> set es \<and> a \<in> Charged s1 then 1 else 0))"
    and p: "ListHead (LookasideP s') = xs @ ListHead (LookasideP s1)"
      "ListHead (LookasideL s') = ys @ ListHead (LookasideL s1)"
      "set (xs @ ys) \<subseteq> set es" "distinct (xs @ ys)"
    by (elim exE conjE) (rule that, assumption+)
  have irp_iff: "(PacketType_of ob = IopCompletionPacketIrp) = (\<exists>irp. ob = IrpObject irp)"
    using valid by (cases ob) simp_all
  have mini_iff: "(PacketType_of ob \<noteq> IopCompletionPacketIrp) = (\<exists>m. ob = MiniObject m)"
    using valid by (cases ob) simp_all
  have A: "release_each s (e # es) = Some s'" using step run by simp
  have B: "\<forall>a. Objects s' a = (if a \<in> set (e # es) then None else Objects s a)"
    using o by (simp add: o1)
  have C: "Queues s' = Queues s" "UserMem s' = UserMem s"
    using f f1 by simp_all
  have D: "\<forall>a. count_list (Log s') (QuotaCharged a) = count_list (Log s) (QuotaCharged a)"
    using q q1 by simp
  have E: "\<forall>a. count_list (Log s') (IrpFreed a) =
            count_list (Log s) (IrpFreed a) +
              (if a \<in> set (e # es) \<and> (\<exists>irp. Objects s a = Some (IrpObject irp)) then 1 else 0)"
  proof
    fix a
    show "count_list (Log s') (IrpFreed a) =
            count_list (Log s) (IrpFreed a) +
              (if a \<in> set (e # es) \<and> (\<exists>irp. Objects s a = Some (IrpObject irp)) then 1 else 0)"
      using i [rule_format, of a] i1 [rule_format, of a] e live
      by (cases "a = e") (simp_all add: o1 irp_iff)
  qed
  have F: "\<forall>a. count_list (Log s') (PoolFreed a) + count_list (ListHead (LookasideP s')) a +
            count_list (ListHead (LookasideL s')) a =
          count_list (Log s) (PoolFreed a) + count_list (ListHead (LookasideP s)) a +
            count_list (ListHead (LookasideL s)) a +
              (if a \<in> set (e # es) \<and> (\<exists>m. Objects s a = Some (MiniObject m)) then 1 else 0)"
  proof
    fix a
    show "count_list (Log s') (PoolFreed a) + count_list (ListHead (LookasideP s')) a +
            count_list (ListHead (LookasideL s')) a =
          count_list (Log s) (PoolFreed a) + count_list (ListHead (LookasideP s)) a +
            count_list (ListHead (LookasideL s)) a +
              (if a \<in> set (e # es) \<and> (\<exists>m. Objects s a = Some (MiniObject m)) then 1 else 0)"
      using l [rule_format, of a] l1 [rule_format, of a] e live
      by (cases "a = e") (simp_all add: o1 mini_iff)
  qed
  have G: "(\<forall>e'\<in>set (e # es). \<forall>ob. Objects s e' = Some ob \<longrightarrow>
          (e' \<in> Charged s) = (PacketType_of ob = IopCompletionPacketQuota)) \<longrightarrow>
        Charged s' = Charged s - set (e # es) \<and>
        (\<forall>a. count_list (Log s') (QuotaReturned a) =
            count_list (Log s) (QuotaReturned a) +
              (if a \<in> set (e # es) \<and> a \<in> Charged s then 1 else 0))"
  proof
    assume T: "\<forall>e'\<in>set (e # es). \<forall>ob. Objects s e' = Some ob \<longrightarrow>
          (e' \<in> Charged s) = (PacketType_of ob = IopCompletionPacketQuota)"
    then have "(e \<in> Charged s) = (PacketType_of ob = IopCompletionPacketQuota)"
      using live by simp
    with c1 have c1': "Charged s1 = Charged s - {e}"
      and r1: "\<And>a. count_list (Log s1) (QuotaReturned a) =
            count_list (Log s) (QuotaReturned a) + (if a = e \<and> e \<in> Charged s then 1 else 0)"
      by simp_all
    have "\<forall>e'\<in>set es. \<forall>ob. Objects s1 e' = Some ob \<longrightarrow>
          (e' \<in> Charged s1) = (PacketType_of ob = IopCompletionPacketQuota)"
      using T e by (auto simp: o1 c1')
    with c have c': "Charged s' = Charged s1 - set es"
      and r: "\<And>a. count_list (Log s') (QuotaReturned a) =
            count_list (Log s1) (QuotaReturned a) +
              (if a \<in> set es \<and> a \<in> Charged s1 then 1 else 0)"
      by simp_all
    have "Charged s' = Charged s - set (e # es)" using c' c1' by auto
    moreover have "\<forall>a. count_list (Log s') (QuotaReturned a) =
            count_list (Log s) (QuotaReturned a) +
              (if a \<in> set (e # es) \<and> a \<in> Charged s then 1 else 0)"
    proof
      fix a
      show "count_list (Log s') (QuotaReturned a) =
            count_list (Log s) (QuotaReturned a) +
              (if a \<in> set (e # es) \<and> a \<in> Charged s then 1 else 0)"
        using e by (cases "a = e") (simp_all add: r r1 c1')
    qed
    ultimately show "Charged s' = Charged s - set (e # es) \<and>
        (\<forall>a. count_list (Log s') (QuotaReturned a) =
            count_list (Log s) (QuotaReturned a) +
              (if a \<in> set (e # es) \<and> a \<in> Charged s then 1 else 0))"
      by (rule conjI)
  qed
  have H1: "ListHead (LookasideP s') = (xs @ xs1) @ ListHead (LookasideP s)"
    using p(1) p1(1) by simp
  have H2: "ListHead (LookasideL s') = (ys @ ys1) @ ListHead (LookasideL s)"
    using p(2) p1(2) by simp
  have H3: "set ((xs @ xs1) @ ys @ ys1) \<subseteq> set (e # es)"
    using p(3) p1(3) by auto
  have "distinct (xs1 @ ys1)"
    using p1(4) by (cases xs1; cases ys1) auto
  then have H4: "distinct ((xs @ xs1) @ ys @ ys1)"
    using p(3,4) p1(3) e by auto
  show ?case
    by (intro exI conjI) (rule A B C D E F G H1 H2 H3 H4)+
qed

text \<open>
  C3: on a port whose pending entries are distinct live objects, the delete routine
  returns a state: the queue is run down, and the do-while loop over the chain that
  rundown returned releases the entries one after the other, each exactly once. Every
  pending IRP is freed by \<open>IoFreeIrp\<close> exactly once and no other IRP is; every
  pending mini packet lands exactly once on a lookaside list or in pool through
  \<open>IopFreeMiniPacket\<close>; no pending entry is an object afterwards; nothing is stored
  to the caller; and with no entry pending nothing but the rundown happens.
\<close>

theorem IopDeleteIoCompletion_releases:
  assumes queue: "Queues s q = Some k"
    and d: "distinct (EntryListHead k)"
    and valid: "\<forall>e\<in>set (EntryListHead k). \<exists>ob. Objects s e = Some ob \<and> valid_entry ob"
  shows "\<exists>s'. IopDeleteIoCompletion s q = Some s' \<and>
     release_each (s\<lparr>Queues := (Queues s)(q \<mapsto> k\<lparr>EntryListHead := []\<rparr>)\<rparr>) (EntryListHead k) =
       Some s' \<and>
     Queues s' = (Queues s)(q \<mapsto> k\<lparr>EntryListHead := []\<rparr>) \<and>
     UserMem s' = UserMem s \<and>
     (\<forall>a. Objects s' a = (if a \<in> set (EntryListHead k) then None else Objects s a)) \<and>
     (\<forall>a. count_list (Log s') (IrpFreed a) =
            count_list (Log s) (IrpFreed a) +
              (if a \<in> set (EntryListHead k) \<and> (\<exists>irp. Objects s a = Some (IrpObject irp))
               then 1 else 0)) \<and>
     (\<forall>a. count_list (Log s') (PoolFreed a) + count_list (ListHead (LookasideP s')) a +
            count_list (ListHead (LookasideL s')) a =
          count_list (Log s) (PoolFreed a) + count_list (ListHead (LookasideP s)) a +
            count_list (ListHead (LookasideL s)) a +
              (if a \<in> set (EntryListHead k) \<and> (\<exists>m. Objects s a = Some (MiniObject m))
               then 1 else 0)) \<and>
     (EntryListHead k = [] \<longrightarrow> s' = s\<lparr>Queues := (Queues s)(q \<mapsto> k\<lparr>EntryListHead := []\<rparr>)\<rparr>)"
proof -
  let ?s1 = "s\<lparr>Queues := (Queues s)(q \<mapsto> k\<lparr>EntryListHead := []\<rparr>)\<rparr>"
  have valid1: "\<forall>e\<in>set (EntryListHead k). \<exists>ob. Objects ?s1 e = Some ob \<and> valid_entry ob"
    using valid by simp
  from release_each_effect [OF d valid1]
  obtain s' where run: "release_each ?s1 (EntryListHead k) = Some s'"
    and o: "\<forall>a. Objects s' a = (if a \<in> set (EntryListHead k) then None else Objects ?s1 a)"
    and f: "Queues s' = Queues ?s1" "UserMem s' = UserMem ?s1"
    and i: "\<forall>a. count_list (Log s') (IrpFreed a) =
            count_list (Log ?s1) (IrpFreed a) +
              (if a \<in> set (EntryListHead k) \<and> (\<exists>irp. Objects ?s1 a = Some (IrpObject irp))
               then 1 else 0)"
    and l: "\<forall>a. count_list (Log s') (PoolFreed a) + count_list (ListHead (LookasideP s')) a +
            count_list (ListHead (LookasideL s')) a =
          count_list (Log ?s1) (PoolFreed a) + count_list (ListHead (LookasideP ?s1)) a +
            count_list (ListHead (LookasideL ?s1)) a +
              (if a \<in> set (EntryListHead k) \<and> (\<exists>m. Objects ?s1 a = Some (MiniObject m))
               then 1 else 0)"
    by (elim exE conjE) (rule that, assumption+)
  have A: "IopDeleteIoCompletion s q = Some s'"
    using IopDeleteIoCompletion_release_each [OF queue d] run by simp
  have B: "EntryListHead k = [] \<longrightarrow> s' = ?s1"
    using run by auto
  show ?thesis
    using A run o f i l B by (intro exI [of _ s'] conjI) simp_all
qed

theorem IopDeleteIoCompletion_releases_witness:
  "(\<exists>s'. IopDeleteIoCompletion kernel2 100 = Some s' \<and>
          Objects s' 10 = None \<and> Objects s' 20 = None \<and>
          count_list (Log s') (IrpFreed 20) = 1 \<and> count_list (Log s') (IrpFreed 10) = 0 \<and>
          count_list (Log s') (PoolFreed 10) + count_list (ListHead (LookasideP s')) 10 +
            count_list (ListHead (LookasideL s')) 10 = 1 \<and>
          Queues s' 100 = Some \<lparr>EntryListHead = [], CurrentCount = 0, MaximumCount = 2\<rparr>) \<and>
   IopDeleteIoCompletion kernel0 100 = Some kernel0"
proof -
  have q2: "Queues kernel2 100 = Some \<lparr>EntryListHead = [10, 20], CurrentCount = 0, MaximumCount = 2\<rparr>"
    and q0: "Queues kernel0 100 = Some \<lparr>EntryListHead = [], CurrentCount = 0, MaximumCount = 2\<rparr>"
    and o2: "Objects kernel2 10 = Some (MiniObject packet10)"
      "Objects kernel2 20 = Some (IrpObject irp20)"
    and z: "Log kernel2 = []" "ListHead (LookasideP kernel2) = []"
      "ListHead (LookasideL kernel2) = []"
    by (simp_all add: kernel2_def kernel0_def lookaside0_def)
  have d2: "distinct (EntryListHead \<lparr>EntryListHead = [10, 20::addr], CurrentCount = 0, MaximumCount = 2\<rparr>)"
    and d0: "distinct (EntryListHead \<lparr>EntryListHead = ([]::addr list), CurrentCount = 0, MaximumCount = 2\<rparr>)"
    by simp_all
  have v2: "\<forall>e\<in>set (EntryListHead \<lparr>EntryListHead = [10, 20], CurrentCount = 0, MaximumCount = 2\<rparr>).
      \<exists>ob. Objects kernel2 e = Some ob \<and> valid_entry ob"
    using o2 by (simp add: packet10_def)
  have v0: "\<forall>e\<in>set (EntryListHead \<lparr>EntryListHead = [], CurrentCount = 0, MaximumCount = 2\<rparr>).
      \<exists>ob. Objects kernel0 e = Some ob \<and> valid_entry ob"
    by simp
  have same: "kernel0\<lparr>Queues := (Queues kernel0)(100 \<mapsto>
      \<lparr>EntryListHead = [], CurrentCount = 0, MaximumCount = 2\<rparr>)\<rparr> = kernel0"
    by (simp add: kernel0_def)
  from IopDeleteIoCompletion_releases [OF q2 d2 v2]
  obtain s' where run: "IopDeleteIoCompletion kernel2 100 = Some s'"
    and qs: "Queues s' = (Queues kernel2)(100 \<mapsto>
               \<lparr>EntryListHead = [10, 20], CurrentCount = 0, MaximumCount = 2\<rparr>
               \<lparr>EntryListHead := []\<rparr>)"
    and ob: "\<forall>a. Objects s' a =
               (if a \<in> set (EntryListHead \<lparr>EntryListHead = [10, 20], CurrentCount = 0,
                                              MaximumCount = 2\<rparr>)
                then None else Objects kernel2 a)"
    and ir: "\<forall>a. count_list (Log s') (IrpFreed a) =
            count_list (Log kernel2) (IrpFreed a) +
              (if a \<in> set (EntryListHead \<lparr>EntryListHead = [10, 20], CurrentCount = 0,
                                             MaximumCount = 2\<rparr>) \<and>
                  (\<exists>irp. Objects kernel2 a = Some (IrpObject irp))
               then 1 else 0)"
    and la: "\<forall>a. count_list (Log s') (PoolFreed a) + count_list (ListHead (LookasideP s')) a +
            count_list (ListHead (LookasideL s')) a =
          count_list (Log kernel2) (PoolFreed a) + count_list (ListHead (LookasideP kernel2)) a +
            count_list (ListHead (LookasideL kernel2)) a +
              (if a \<in> set (EntryListHead \<lparr>EntryListHead = [10, 20], CurrentCount = 0,
                                             MaximumCount = 2\<rparr>) \<and>
                  (\<exists>m. Objects kernel2 a = Some (MiniObject m))
               then 1 else 0)"
    by (elim exE conjE) (rule that, assumption+)
  have "Objects s' 10 = None" "Objects s' 20 = None"
    using ob [rule_format, of 10] ob [rule_format, of 20] by simp_all
  moreover have "count_list (Log s') (IrpFreed 20) = 1" "count_list (Log s') (IrpFreed 10) = 0"
    using ir [rule_format, of 20] ir [rule_format, of 10] o2 z by simp_all
  moreover have "count_list (Log s') (PoolFreed 10) + count_list (ListHead (LookasideP s')) 10 +
            count_list (ListHead (LookasideL s')) 10 = 1"
    using la [rule_format, of 10] o2 z by simp
  moreover have "Queues s' 100 = Some \<lparr>EntryListHead = [], CurrentCount = 0, MaximumCount = 2\<rparr>"
    using qs by simp
  ultimately have a: "\<exists>s'. IopDeleteIoCompletion kernel2 100 = Some s' \<and>
          Objects s' 10 = None \<and> Objects s' 20 = None \<and>
          count_list (Log s') (IrpFreed 20) = 1 \<and> count_list (Log s') (IrpFreed 10) = 0 \<and>
          count_list (Log s') (PoolFreed 10) + count_list (ListHead (LookasideP s')) 10 +
            count_list (ListHead (LookasideL s')) 10 = 1 \<and>
          Queues s' 100 = Some \<lparr>EntryListHead = [], CurrentCount = 0, MaximumCount = 2\<rparr>"
    using run by blast
  from IopDeleteIoCompletion_releases [OF q0 d0 v0]
  have b: "IopDeleteIoCompletion kernel0 100 = Some kernel0"
    using same by auto
  from a b show ?thesis by blast
qed

subsection \<open>The quota invariant is kept\<close>

lemma quota_inv_released:
  assumes inv: "quota_inv s"
    and R: "R \<subseteq> dom (Objects s)"
    and o: "\<forall>a. Objects s' a = (if a \<in> R then None else Objects s a)"
    and c: "Charged s' = Charged s - R"
    and lists: "ListHead (LookasideP s') = xs @ ListHead (LookasideP s)"
      "ListHead (LookasideL s') = ys @ ListHead (LookasideL s)"
      "set (xs @ ys) \<subseteq> R" "distinct (xs @ ys)"
    and qc: "\<forall>a. count_list (Log s') (QuotaCharged a) = count_list (Log s) (QuotaCharged a)"
    and qr: "\<forall>a. count_list (Log s') (QuotaReturned a) =
            count_list (Log s) (QuotaReturned a) + (if a \<in> R \<and> a \<in> Charged s then 1 else 0)"
  shows "quota_inv s'"
proof -
  from inv have tag: "\<And>a ob. Objects s a = Some ob \<Longrightarrow>
        (a \<in> Charged s) = (PacketType_of ob = IopCompletionPacketQuota)"
    and live: "Charged s \<subseteq> dom (Objects s)"
    and dist: "distinct (ListHead (LookasideP s) @ ListHead (LookasideL s))"
    and disj: "set (ListHead (LookasideP s) @ ListHead (LookasideL s)) \<inter> dom (Objects s) = {}"
    and bal: "\<And>a. count_list (Log s) (QuotaCharged a) =
            count_list (Log s) (QuotaReturned a) + (if a \<in> Charged s then 1 else 0)"
    unfolding quota_inv_def by blast+
  have dom': "dom (Objects s') = dom (Objects s) - R"
    using o by (auto simp: dom_def)
  have 1: "\<forall>a ob. Objects s' a = Some ob \<longrightarrow>
        (a \<in> Charged s') = (PacketType_of ob = IopCompletionPacketQuota)"
  proof (intro allI impI)
    fix a ob assume "Objects s' a = Some ob"
    then have "a \<notin> R" "Objects s a = Some ob"
      using o [rule_format, of a] by (auto split: if_splits)
    then show "(a \<in> Charged s') = (PacketType_of ob = IopCompletionPacketQuota)"
      using tag c by simp
  qed
  have 2: "Charged s' \<subseteq> dom (Objects s')"
    using live c dom' by auto
  have new: "set (xs @ ys) \<inter> set (ListHead (LookasideP s) @ ListHead (LookasideL s)) = {}"
  proof -
    have "set (xs @ ys) \<subseteq> dom (Objects s)" using lists(3) R by blast
    then show ?thesis using disj by blast
  qed
  have 3: "distinct (ListHead (LookasideP s') @ ListHead (LookasideL s'))"
    using dist lists(4) new by (auto simp: lists(1,2))
  have 4: "set (ListHead (LookasideP s') @ ListHead (LookasideL s')) \<inter> dom (Objects s') = {}"
    using disj lists(3) dom' by (auto simp: lists(1,2))
  have 5: "\<forall>a. count_list (Log s') (QuotaCharged a) =
            count_list (Log s') (QuotaReturned a) + (if a \<in> Charged s' then 1 else 0)"
  proof
    fix a
    show "count_list (Log s') (QuotaCharged a) =
            count_list (Log s') (QuotaReturned a) + (if a \<in> Charged s' then 1 else 0)"
      using bal [of a] qc [rule_format, of a] qr [rule_format, of a] c by auto
  qed
  show ?thesis
    unfolding quota_inv_def using 1 2 3 4 5 by blast
qed

lemma quota_inv_installed:
  assumes inv: "quota_inv s"
    and fresh: "a \<notin> dom (Objects s)"
    and o: "Objects s' = (Objects s)(a \<mapsto> MiniObject m)"
    and c: "Charged s' = (if PacketType m = IopCompletionPacketQuota
                          then insert a (Charged s) else Charged s)"
    and lists: "set (ListHead (LookasideP s') @ ListHead (LookasideL s')) \<subseteq>
                  set (ListHead (LookasideP s) @ ListHead (LookasideL s)) - {a}"
      "distinct (ListHead (LookasideP s') @ ListHead (LookasideL s'))"
    and qc: "\<forall>b. count_list (Log s') (QuotaCharged b) =
            count_list (Log s) (QuotaCharged b) +
              (if b = a \<and> PacketType m = IopCompletionPacketQuota then 1 else 0)"
    and qr: "\<forall>b. count_list (Log s') (QuotaReturned b) = count_list (Log s) (QuotaReturned b)"
  shows "quota_inv s'"
proof -
  from inv have tag: "\<And>a ob. Objects s a = Some ob \<Longrightarrow>
        (a \<in> Charged s) = (PacketType_of ob = IopCompletionPacketQuota)"
    and live: "Charged s \<subseteq> dom (Objects s)"
    and disj: "set (ListHead (LookasideP s) @ ListHead (LookasideL s)) \<inter> dom (Objects s) = {}"
    and bal: "\<And>a. count_list (Log s) (QuotaCharged a) =
            count_list (Log s) (QuotaReturned a) + (if a \<in> Charged s then 1 else 0)"
    unfolding quota_inv_def by blast+
  have nc: "a \<notin> Charged s" using fresh live by auto
  have 1: "\<forall>b ob. Objects s' b = Some ob \<longrightarrow>
        (b \<in> Charged s') = (PacketType_of ob = IopCompletionPacketQuota)"
  proof (intro allI impI)
    fix b ob assume ob: "Objects s' b = Some ob"
    show "(b \<in> Charged s') = (PacketType_of ob = IopCompletionPacketQuota)"
    proof (cases "b = a")
      case True
      then have "ob = MiniObject m" using ob o by simp
      then show ?thesis using True c nc by simp
    next
      case False
      then have "Objects s b = Some ob" using ob o by simp
      then show ?thesis using tag False c by simp
    qed
  qed
  have 2: "Charged s' \<subseteq> dom (Objects s')"
    using live c o by auto
  have 4: "set (ListHead (LookasideP s') @ ListHead (LookasideL s')) \<inter> dom (Objects s') = {}"
    using disj lists(1) o by auto
  have 5: "\<forall>b. count_list (Log s') (QuotaCharged b) =
            count_list (Log s') (QuotaReturned b) + (if b \<in> Charged s' then 1 else 0)"
  proof
    fix b
    show "count_list (Log s') (QuotaCharged b) =
            count_list (Log s') (QuotaReturned b) + (if b \<in> Charged s' then 1 else 0)"
      using bal [of b] qc [rule_format, of b] qr [rule_format, of b] c nc by auto
  qed
  show ?thesis
    unfolding quota_inv_def using 1 2 lists(2) 4 5 by blast
qed

lemma quota_inv_same:
  assumes "Objects s' = Objects s" and "Charged s' = Charged s"
    and "ListHead (LookasideP s') = ListHead (LookasideP s)"
    and "ListHead (LookasideL s') = ListHead (LookasideL s)"
    and "\<forall>a. count_list (Log s') (QuotaCharged a) = count_list (Log s) (QuotaCharged a)"
    and "\<forall>a. count_list (Log s') (QuotaReturned a) = count_list (Log s) (QuotaReturned a)"
  shows "quota_inv s' = quota_inv s"
  using assms by (simp add: quota_inv_def)

lemma quota_inv_free:
  assumes inv: "quota_inv s" and live: "Objects s p = Some (MiniObject m)"
  shows "\<exists>s'. IopFreeMiniPacket s p = Some s' \<and> quota_inv s' \<and> p \<notin> Charged s' \<and>
     (\<forall>a. count_list (Log s') (QuotaReturned a) =
            count_list (Log s) (QuotaReturned a) +
              (if a = p \<and> PacketType m = IopCompletionPacketQuota then 1 else 0)) \<and>
     (\<forall>a. count_list (Log s') (QuotaCharged a) = count_list (Log s) (QuotaCharged a))"
proof -
  have tag: "(p \<in> Charged s) = (PacketType m = IopCompletionPacketQuota)"
    using inv live unfolding quota_inv_def by fastforce
  from IopFreeMiniPacket_effect [OF live]
  obtain s' xs ys where run: "IopFreeMiniPacket s p = Some s'"
    and o: "Objects s' = (Objects s)(p := None)"
    and qc: "\<forall>a. count_list (Log s') (QuotaCharged a) = count_list (Log s) (QuotaCharged a)"
    and c: "(p \<in> Charged s) = (PacketType m = IopCompletionPacketQuota) \<longrightarrow>
        Charged s' = Charged s - {p} \<and>
        (\<forall>a. count_list (Log s') (QuotaReturned a) =
            count_list (Log s) (QuotaReturned a) + (if a = p \<and> p \<in> Charged s then 1 else 0))"
    and p: "ListHead (LookasideP s') = xs @ ListHead (LookasideP s)"
      "ListHead (LookasideL s') = ys @ ListHead (LookasideL s)"
      "set (xs @ ys) \<subseteq> {p}" "length (xs @ ys) \<le> 1"
    by (elim exE conjE) (rule that, assumption+)
  from c tag have c': "Charged s' = Charged s - {p}"
    and qr: "\<forall>a. count_list (Log s') (QuotaReturned a) =
            count_list (Log s) (QuotaReturned a) + (if a \<in> {p} \<and> a \<in> Charged s then 1 else 0)"
    by simp_all
  have R: "{p} \<subseteq> dom (Objects s)" using live by auto
  have o': "\<forall>a. Objects s' a = (if a \<in> {p} then None else Objects s a)"
    using o by simp
  have d: "distinct (xs @ ys)"
    using p(4) by (cases xs; cases ys) auto
  have "quota_inv s'"
    by (rule quota_inv_released [OF inv R o' c' p(1,2,3) d qc qr])
  moreover have "p \<notin> Charged s'" using c' by simp
  moreover have "\<forall>a. count_list (Log s') (QuotaReturned a) =
            count_list (Log s) (QuotaReturned a) +
              (if a = p \<and> PacketType m = IopCompletionPacketQuota then 1 else 0)"
    using qr tag by auto
  ultimately show ?thesis using run qc by blast
qed

lemma quota_inv_rundown:
  assumes inv: "quota_inv s" and queue: "Queues s q = Some k"
    and d: "distinct (EntryListHead k)"
    and valid: "\<forall>e\<in>set (EntryListHead k). \<exists>ob. Objects s e = Some ob \<and> valid_entry ob"
  shows "\<exists>s'. IopDeleteIoCompletion s q = Some s' \<and> quota_inv s' \<and>
     Charged s' = Charged s - set (EntryListHead k) \<and>
     (\<forall>a. count_list (Log s') (QuotaReturned a) =
            count_list (Log s) (QuotaReturned a) +
              (if a \<in> set (EntryListHead k) \<and> a \<in> Charged s then 1 else 0)) \<and>
     (\<forall>a. count_list (Log s') (QuotaCharged a) = count_list (Log s) (QuotaCharged a))"
proof -
  let ?s1 = "s\<lparr>Queues := (Queues s)(q \<mapsto> k\<lparr>EntryListHead := []\<rparr>)\<rparr>"
  let ?es = "EntryListHead k"
  have inv1: "quota_inv ?s1"
    using inv by (simp add: quota_inv_def)
  have valid1: "\<forall>e\<in>set ?es. \<exists>ob. Objects ?s1 e = Some ob \<and> valid_entry ob"
    using valid by simp
  have tags: "\<forall>e\<in>set ?es. \<forall>ob. Objects ?s1 e = Some ob \<longrightarrow>
          (e \<in> Charged ?s1) = (PacketType_of ob = IopCompletionPacketQuota)"
    using inv1 unfolding quota_inv_def by blast
  from release_each_effect [OF d valid1]
  obtain s' xs ys where run: "release_each ?s1 ?es = Some s'"
    and o: "\<forall>a. Objects s' a = (if a \<in> set ?es then None else Objects ?s1 a)"
    and qc: "\<forall>a. count_list (Log s') (QuotaCharged a) = count_list (Log ?s1) (QuotaCharged a)"
    and c: "(\<forall>e\<in>set ?es. \<forall>ob. Objects ?s1 e = Some ob \<longrightarrow>
          (e \<in> Charged ?s1) = (PacketType_of ob = IopCompletionPacketQuota)) \<longrightarrow>
        Charged s' = Charged ?s1 - set ?es \<and>
        (\<forall>a. count_list (Log s') (QuotaReturned a) =
            count_list (Log ?s1) (QuotaReturned a) +
              (if a \<in> set ?es \<and> a \<in> Charged ?s1 then 1 else 0))"
    and p: "ListHead (LookasideP s') = xs @ ListHead (LookasideP ?s1)"
      "ListHead (LookasideL s') = ys @ ListHead (LookasideL ?s1)"
      "set (xs @ ys) \<subseteq> set ?es" "distinct (xs @ ys)"
    by (elim exE conjE) (rule that, assumption+)
  from c tags have c': "Charged s' = Charged ?s1 - set ?es"
    and qr: "\<forall>a. count_list (Log s') (QuotaReturned a) =
            count_list (Log ?s1) (QuotaReturned a) +
              (if a \<in> set ?es \<and> a \<in> Charged ?s1 then 1 else 0)"
    by blast+
  have R: "set ?es \<subseteq> dom (Objects ?s1)" using valid1 by auto
  have "quota_inv s'"
    by (rule quota_inv_released [OF inv1 R o c' p qc qr])
  moreover have "IopDeleteIoCompletion s q = Some s'"
    using IopDeleteIoCompletion_release_each [OF queue d] run by simp
  ultimately show ?thesis using c' qr qc by (intro exI [of _ s'] conjI) simp_all
qed

lemma quota_inv_post:
  assumes inv: "quota_inv s" and port: "Queues s q = Some k"
    and fresh: "\<forall>a. pool = Some a \<longrightarrow> a \<notin> dom (Objects s)"
  shows "\<exists>st s'. IoSetIoCompletion s q Key Apc IoSt Info Quota pool = Some (st, s') \<and>
     quota_inv s' \<and>
     (\<forall>a. ListHead (LookasideP s) = [] \<and> ListHead (LookasideL s) = [] \<and> pool = Some a \<and> Quota \<longrightarrow>
        a \<in> Charged s' \<and>
        Objects s' a = Some (MiniObject \<lparr>PacketType = IopCompletionPacketQuota, KeyContext = Key,
                               ApcContext = Apc, IoStatus = IoSt, IoStatusInformation = Info\<rparr>) \<and>
        count_list (Log s') (QuotaCharged a) = count_list (Log s) (QuotaCharged a) + 1 \<and>
        count_list (Log s') (QuotaReturned a) = count_list (Log s) (QuotaReturned a))"
proof -
  from inv have dist: "distinct (ListHead (LookasideP s) @ ListHead (LookasideL s))"
    and disj: "set (ListHead (LookasideP s) @ ListHead (LookasideL s)) \<inter> dom (Objects s) = {}"
    unfolding quota_inv_def by blast+
  let ?mini = "\<lparr>PacketType = IopCompletionPacketMini, KeyContext = Key, ApcContext = Apc,
                IoStatus = IoSt, IoStatusInformation = Info\<rparr>"
  let ?quota = "\<lparr>PacketType = IopCompletionPacketQuota, KeyContext = Key, ApcContext = Apc,
                IoStatus = IoSt, IoStatusInformation = Info\<rparr>"
  show ?thesis
  proof (cases "ListHead (LookasideP s)")
    case (Cons b r)
    let ?s' = "s\<lparr>LookasideP := (LookasideP s)\<lparr>TotalAllocates := TotalAllocates (LookasideP s) + 1,
                                               ListHead := r\<rparr>,
                  Objects := (Objects s)(b \<mapsto> MiniObject ?mini),
                  Queues := (Queues s)(q \<mapsto> k\<lparr>EntryListHead := EntryListHead k @ [b]\<rparr>)\<rparr>"
    have run: "IoSetIoCompletion s q Key Apc IoSt Info Quota pool = Some (STATUS_SUCCESS, ?s')"
      using port by (simp add: IoSetIoCompletion_def allocate_P [OF Cons] KeInsertQueue_def)
    have b: "b \<notin> dom (Objects s)" using disj Cons by auto
    have "quota_inv ?s'"
      by (rule quota_inv_installed [OF inv b, where m = ?mini]) (use dist Cons in auto)
    then show ?thesis using run Cons by simp
  next
    case Nil
    note P = Nil
    show ?thesis
    proof (cases "ListHead (LookasideL s)")
      case (Cons b r)
      let ?s' = "s\<lparr>LookasideP := (LookasideP s)\<lparr>TotalAllocates := TotalAllocates (LookasideP s) + 1,
                         AllocateMisses := AllocateMisses (LookasideP s) + 1\<rparr>,
                    LookasideL := (LookasideL s)\<lparr>TotalAllocates := TotalAllocates (LookasideL s) + 1,
                         ListHead := r\<rparr>,
                    Objects := (Objects s)(b \<mapsto> MiniObject ?mini),
                    Queues := (Queues s)(q \<mapsto> k\<lparr>EntryListHead := EntryListHead k @ [b]\<rparr>)\<rparr>"
      have run: "IoSetIoCompletion s q Key Apc IoSt Info Quota pool = Some (STATUS_SUCCESS, ?s')"
        using port by (simp add: IoSetIoCompletion_def allocate_L [OF P Cons] KeInsertQueue_def)
      have b: "b \<notin> dom (Objects s)" using disj Cons by auto
      have "quota_inv ?s'"
        by (rule quota_inv_installed [OF inv b, where m = ?mini]) (use dist P Cons in auto)
      then show ?thesis using run Cons by simp
    next
      case Nil
      let ?s1 = "s\<lparr>LookasideP := (LookasideP s)\<lparr>TotalAllocates := TotalAllocates (LookasideP s) + 1,
                         AllocateMisses := AllocateMisses (LookasideP s) + 1\<rparr>,
                    LookasideL := (LookasideL s)\<lparr>TotalAllocates := TotalAllocates (LookasideL s) + 1,
                         AllocateMisses := AllocateMisses (LookasideL s) + 1\<rparr>\<rparr>"
      show ?thesis
      proof (cases pool)
        case None
        have run: "IoSetIoCompletion s q Key Apc IoSt Info Quota pool =
            Some (STATUS_INSUFFICIENT_RESOURCES, ?s1)"
          by (simp add: IoSetIoCompletion_def allocate_pool [OF P Nil] None)
        have "quota_inv ?s1 = quota_inv s"
          by (rule quota_inv_same) simp_all
        then show ?thesis using run inv None by simp
      next
        case (Some a)
        have a: "a \<notin> dom (Objects s)" using fresh Some by simp
        show ?thesis
        proof (cases Quota)
          case True
          let ?s' = "?s1\<lparr>Charged := insert a (Charged s), Log := Log s @ [QuotaCharged a],
                        Objects := (Objects s)(a \<mapsto> MiniObject ?quota),
                        Queues := (Queues s)(q \<mapsto> k\<lparr>EntryListHead := EntryListHead k @ [a]\<rparr>)\<rparr>"
          have run: "IoSetIoCompletion s q Key Apc IoSt Info Quota pool = Some (STATUS_SUCCESS, ?s')"
            using port True
            by (simp add: IoSetIoCompletion_def allocate_pool [OF P Nil] Some KeInsertQueue_def)
          have "quota_inv ?s'"
            by (rule quota_inv_installed [OF inv a, where m = ?quota]) (use P Nil in auto)
          then show ?thesis using run Some by simp
        next
          case False
          let ?s' = "?s1\<lparr>Objects := (Objects s)(a \<mapsto> MiniObject ?mini),
                        Queues := (Queues s)(q \<mapsto> k\<lparr>EntryListHead := EntryListHead k @ [a]\<rparr>)\<rparr>"
          have run: "IoSetIoCompletion s q Key Apc IoSt Info Quota pool = Some (STATUS_SUCCESS, ?s')"
            using port False
            by (simp add: IoSetIoCompletion_def allocate_pool [OF P Nil] Some KeInsertQueue_def)
          have "quota_inv ?s'"
            by (rule quota_inv_installed [OF inv a, where m = ?mini]) (use P Nil in auto)
          then show ?thesis using run False by simp
        qed
      qed
    qed
  qed
qed

text \<open>The system services keep the invariant on every path on which they return.\<close>

lemma quota_inv_log:
  assumes "quota_inv s"
    and "\<forall>a. count_list evs (QuotaCharged a) = 0" and "\<forall>a. count_list evs (QuotaReturned a) = 0"
  shows "quota_inv (s\<lparr>Log := Log s @ evs\<rparr>)"
proof -
  have "quota_inv (s\<lparr>Log := Log s @ evs\<rparr>) = quota_inv s"
    by (rule quota_inv_same) (use assms(2,3) in simp_all)
  then show ?thesis using assms(1) by simp
qed

lemma quota_inv_NtQueryIoCompletion:
  assumes inv: "quota_inv s"
    and run: "NtQueryIoCompletion s h cls info len rl = Some (st, s')"
  shows "quota_inv s'"
proof -
  have keep: "\<And>t a d. quota_inv t \<Longrightarrow> quota_inv (NtQueryIoCompletion_write t a rl d)"
  proof -
    fix t a d assume t: "quota_inv t"
    have "quota_inv (NtQueryIoCompletion_write t a rl d) = quota_inv t"
      by (rule quota_inv_same)
        (simp_all add: NtQueryIoCompletion_write_def store_def split: option.splits)
    then show "quota_inv (NtQueryIoCompletion_write t a rl d)" using t by simp
  qed
  consider (same) "s' = s"
    | (ref) q d where "s' = NtQueryIoCompletion_write
                         (s\<lparr>Log := Log s @ [Referenced q] @ [Dereferenced q]\<rparr>) info rl d"
    using run
    by (auto simp: NtQueryIoCompletion_def ObReferenceObjectByHandle_def ObDereferenceObject_def
        NT_SUCCESS_codes Let_def split: sum.splits if_splits option.splits)
  then show ?thesis
  proof cases
    case same
    then show ?thesis using inv by simp
  next
    case ref
    have "quota_inv (s\<lparr>Log := Log s @ [Referenced q] @ [Dereferenced q]\<rparr>)"
      by (rule quota_inv_log [OF inv]) simp_all
    then show ?thesis unfolding ref by (rule keep)
  qed
qed

lemma quota_inv_NtSetIoCompletion:
  assumes inv: "quota_inv s"
    and fresh: "\<forall>a. pool = Some a \<longrightarrow> a \<notin> dom (Objects s)"
    and run: "NtSetIoCompletion s h Key Apc IoSt Info pool = Some (st, s')"
  shows "quota_inv s'"
proof (cases "HandleTable s h")
  case None
  then have "s' = s" using run
    by (simp add: NtSetIoCompletion_def ObReferenceObjectByHandle_def NT_SUCCESS_codes)
  then show ?thesis using inv by simp
next
  case (Some q)
  show ?thesis
  proof (cases "Queues s q")
    case None
    then have "s' = s" using run Some
      by (simp add: NtSetIoCompletion_def ObReferenceObjectByHandle_def NT_SUCCESS_codes)
    then show ?thesis using inv by simp
  next
    case (Some k)
    let ?s1 = "s\<lparr>Log := Log s @ [Referenced q]\<rparr>"
    have inv1: "quota_inv ?s1" by (rule quota_inv_log [OF inv]) simp_all
    have port1: "Queues ?s1 q = Some k" using Some by simp
    have fresh1: "\<forall>a. pool = Some a \<longrightarrow> a \<notin> dom (Objects ?s1)" using fresh by simp
    from quota_inv_post [OF inv1 port1 fresh1, of Key Apc IoSt Info True]
    obtain st2 s2 where io: "IoSetIoCompletion ?s1 q Key Apc IoSt Info True pool = Some (st2, s2)"
      and inv2: "quota_inv s2"
      by blast
    have "s' = ObDereferenceObject s2 q"
      using run io by (simp add: NtSetIoCompletion_valid [OF \<open>HandleTable s h = Some q\<close> Some])
    moreover have "quota_inv (s2\<lparr>Log := Log s2 @ [Dereferenced q]\<rparr>)"
      by (rule quota_inv_log [OF inv2]) simp_all
    ultimately show ?thesis by (simp add: ObDereferenceObject_def)
  qed
qed

lemma quota_inv_capture:
  assumes inv: "quota_inv s"
    and cap: "NtRemoveIoCompletion_capture s e = Some (apc, key, iosb, sf)"
  shows "quota_inv sf"
proof -
  obtain ob where live: "Objects s e = Some ob"
    using cap by (auto simp: NtRemoveIoCompletion_capture_def split: option.splits)
  show ?thesis
  proof (cases ob)
    case (IrpObject irp)
    then have sf: "sf = IoFreeIrp s e"
      using cap live by (simp add: NtRemoveIoCompletion_capture_def)
    have nc: "e \<notin> Charged s"
      using inv live IrpObject unfolding quota_inv_def by fastforce
    show ?thesis
    proof (rule quota_inv_released [OF inv, where R = "{e}" and xs = "[]" and ys = "[]"])
      show "{e} \<subseteq> dom (Objects s)" using live by auto
      show "\<forall>a. Objects sf a = (if a \<in> {e} then None else Objects s a)"
        by (simp add: sf IoFreeIrp_def)
      show "Charged sf = Charged s - {e}" using nc by (simp add: sf IoFreeIrp_def)
      show "ListHead (LookasideP sf) = [] @ ListHead (LookasideP s)"
        "ListHead (LookasideL sf) = [] @ ListHead (LookasideL s)"
        by (simp_all add: sf IoFreeIrp_def)
      show "set ([] @ []) \<subseteq> {e}" "distinct ([] @ [])" by simp_all
      show "\<forall>a. count_list (Log sf) (QuotaCharged a) = count_list (Log s) (QuotaCharged a)"
        by (simp add: sf IoFreeIrp_def)
      show "\<forall>a. count_list (Log sf) (QuotaReturned a) =
            count_list (Log s) (QuotaReturned a) + (if a \<in> {e} \<and> a \<in> Charged s then 1 else 0)"
        using nc by (simp add: sf IoFreeIrp_def)
    qed
  next
    case (MiniObject m)
    then have live': "Objects s e = Some (MiniObject m)" using live by simp
    have "IopFreeMiniPacket s e = Some sf"
      using cap live' by (auto simp: NtRemoveIoCompletion_capture_def split: if_splits option.splits)
    then show ?thesis using quota_inv_free [OF inv live'] by auto
  qed
qed

lemma quota_inv_NtRemoveIoCompletion:
  assumes inv: "quota_inv s"
    and run: "NtRemoveIoCompletion s h KeyPtr ApcPtr IosbPtr Timeout wait = Some (st, s')"
  shows "quota_inv s'"
proof (cases "NtRemoveIoCompletion_probe s KeyPtr ApcPtr IosbPtr Timeout")
  case (Inl code)
  then have "s' = s" using run by (simp add: NtRemoveIoCompletion_def)
  then show ?thesis using inv by simp
next
  case (Inr u)
  then have probe: "NtRemoveIoCompletion_probe s KeyPtr ApcPtr IosbPtr Timeout = Inr ()" by simp
  show ?thesis
  proof (cases "HandleTable s h")
    case None
    then have "s' = s" using run probe
      by (simp add: NtRemoveIoCompletion_def ObReferenceObjectByHandle_def NT_SUCCESS_codes)
    then show ?thesis using inv by simp
  next
    case (Some q)
    note handle = Some
    show ?thesis
    proof (cases "Queues s q")
      case None
      then have "s' = s" using run probe handle
        by (simp add: NtRemoveIoCompletion_def ObReferenceObjectByHandle_def NT_SUCCESS_codes)
      then show ?thesis using inv by simp
    next
      case (Some k)
      note queue = Some
      obtain r k1 where rem: "KeRemoveQueue k wait = (r, k1)" by (cases "KeRemoveQueue k wait")
      let ?s2 = "s\<lparr>Log := Log s @ [Referenced q], Queues := (Queues s)(q \<mapsto> k1)\<rparr>"
      have "quota_inv (s\<lparr>Log := Log s @ [Referenced q]\<rparr>)"
        by (rule quota_inv_log [OF inv]) simp_all
      then have inv2: "quota_inv ?s2" by (simp add: quota_inv_def)
      show ?thesis
      proof (cases r)
        case (RemoveStatus st0)
        have "s' = ObDereferenceObject ?s2 q"
          using run probe rem RemoveStatus queue
          by (simp add: NtRemoveIoCompletion_def ObReferenceObjectByHandle_valid [OF handle queue]
              NT_SUCCESS_codes)
        moreover have "quota_inv (?s2\<lparr>Log := Log ?s2 @ [Dereferenced q]\<rparr>)"
          by (rule quota_inv_log [OF inv2]) simp_all
        ultimately show ?thesis by (simp add: ObDereferenceObject_def)
      next
        case (RemovedEntry e)
        note d = NtRemoveIoCompletion_delivered [OF probe handle queue rem [unfolded RemovedEntry]]
        obtain apc key iosb sf where
          cap: "NtRemoveIoCompletion_capture ?s2 e = Some (apc, key, iosb, sf)"
          and s': "s' = ObDereferenceObject
                          (NtRemoveIoCompletion_write sf ApcPtr KeyPtr IosbPtr apc key iosb) q"
          using run unfolding d by (auto split: option.splits)
        have invf: "quota_inv sf" by (rule quota_inv_capture [OF inv2 cap])
        have "quota_inv s' = quota_inv sf"
          by (rule quota_inv_same)
            (simp_all add: s' ObDereferenceObject_def NtRemoveIoCompletion_write_frame)
        then show ?thesis using invf by simp
      qed
    qed
  qed
qed

subsection \<open>Quota symmetry\<close>

text \<open>
  C5: in a state that satisfies the quota invariant no block on a lookaside list is
  charged, and for every block the quota charges made so far are the quota returns
  made so far, plus one exactly if the block is charged now. IoSetIoCompletion keeps
  the invariant (the block that pool hands out not being an object already), and
  with \<open>Quota\<close> set and both lists empty it makes one charge for the packet, of type
  \<open>IopCompletionPacketQuota\<close>. IopFreeMiniPacket keeps the invariant, returns the
  charge of a packet of that type exactly once and the charge of no other block, and
  leaves the packet uncharged. IopDeleteIoCompletion keeps the invariant and returns
  the charge of every charged pending entry exactly once and of no other block. The
  three system services keep the invariant on every path on which they return. So
  every charge is returned once when its packet is freed or run down, not before and
  not again.
\<close>

theorem quota_symmetry:
  assumes inv: "quota_inv s"
  shows "set (ListHead (LookasideP s) @ ListHead (LookasideL s)) \<inter> Charged s = {} \<and>
    (\<forall>a. count_list (Log s) (QuotaCharged a) =
           count_list (Log s) (QuotaReturned a) + (if a \<in> Charged s then 1 else 0)) \<and>
    (\<forall>q k Key Apc IoSt Info Quota pool.
       Queues s q = Some k \<and> (\<forall>a. pool = Some a \<longrightarrow> a \<notin> dom (Objects s)) \<longrightarrow>
       (\<exists>st s'. IoSetIoCompletion s q Key Apc IoSt Info Quota pool = Some (st, s') \<and>
          quota_inv s' \<and>
          (\<forall>a. ListHead (LookasideP s) = [] \<and> ListHead (LookasideL s) = [] \<and>
               pool = Some a \<and> Quota \<longrightarrow>
             a \<in> Charged s' \<and>
             Objects s' a = Some (MiniObject \<lparr>PacketType = IopCompletionPacketQuota,
                                   KeyContext = Key, ApcContext = Apc, IoStatus = IoSt,
                                   IoStatusInformation = Info\<rparr>) \<and>
             count_list (Log s') (QuotaCharged a) = count_list (Log s) (QuotaCharged a) + 1 \<and>
             count_list (Log s') (QuotaReturned a) = count_list (Log s) (QuotaReturned a)))) \<and>
    (\<forall>p m. Objects s p = Some (MiniObject m) \<longrightarrow>
       (\<exists>s'. IopFreeMiniPacket s p = Some s' \<and> quota_inv s' \<and> p \<notin> Charged s' \<and>
          (\<forall>a. count_list (Log s') (QuotaReturned a) =
                 count_list (Log s) (QuotaReturned a) +
                   (if a = p \<and> PacketType m = IopCompletionPacketQuota then 1 else 0)) \<and>
          (\<forall>a. count_list (Log s') (QuotaCharged a) = count_list (Log s) (QuotaCharged a)))) \<and>
    (\<forall>q k. Queues s q = Some k \<and> distinct (EntryListHead k) \<and>
           (\<forall>e\<in>set (EntryListHead k). \<exists>ob. Objects s e = Some ob \<and> valid_entry ob) \<longrightarrow>
       (\<exists>s'. IopDeleteIoCompletion s q = Some s' \<and> quota_inv s' \<and>
          Charged s' = Charged s - set (EntryListHead k) \<and>
          (\<forall>a. count_list (Log s') (QuotaReturned a) =
                 count_list (Log s) (QuotaReturned a) +
                   (if a \<in> set (EntryListHead k) \<and> a \<in> Charged s then 1 else 0)) \<and>
          (\<forall>a. count_list (Log s') (QuotaCharged a) = count_list (Log s) (QuotaCharged a)))) \<and>
    (\<forall>h Key Apc IoSt Info pool st s'.
       (\<forall>a. pool = Some a \<longrightarrow> a \<notin> dom (Objects s)) \<and>
       NtSetIoCompletion s h Key Apc IoSt Info pool = Some (st, s') \<longrightarrow> quota_inv s') \<and>
    (\<forall>h KeyPtr ApcPtr IosbPtr Timeout wait st s'.
       NtRemoveIoCompletion s h KeyPtr ApcPtr IosbPtr Timeout wait = Some (st, s') \<longrightarrow>
       quota_inv s') \<and>
    (\<forall>h cls info len rl st s'.
       NtQueryIoCompletion s h cls info len rl = Some (st, s') \<longrightarrow> quota_inv s')"
proof (intro conjI allI impI)
  from inv have live: "Charged s \<subseteq> dom (Objects s)"
    and disj: "set (ListHead (LookasideP s) @ ListHead (LookasideL s)) \<inter> dom (Objects s) = {}"
    and bal: "\<And>a. count_list (Log s) (QuotaCharged a) =
            count_list (Log s) (QuotaReturned a) + (if a \<in> Charged s then 1 else 0)"
    unfolding quota_inv_def by blast+
  show "set (ListHead (LookasideP s) @ ListHead (LookasideL s)) \<inter> Charged s = {}"
    using live disj by blast
  show "\<And>a. count_list (Log s) (QuotaCharged a) =
           count_list (Log s) (QuotaReturned a) + (if a \<in> Charged s then 1 else 0)"
    by (rule bal)
next
  fix q k Key Apc IoSt Info Quota pool
  assume "Queues s q = Some k \<and> (\<forall>a. pool = Some a \<longrightarrow> a \<notin> dom (Objects s))"
  then show "\<exists>st s'. IoSetIoCompletion s q Key Apc IoSt Info Quota pool = Some (st, s') \<and>
          quota_inv s' \<and>
          (\<forall>a. ListHead (LookasideP s) = [] \<and> ListHead (LookasideL s) = [] \<and>
               pool = Some a \<and> Quota \<longrightarrow>
             a \<in> Charged s' \<and>
             Objects s' a = Some (MiniObject \<lparr>PacketType = IopCompletionPacketQuota,
                                   KeyContext = Key, ApcContext = Apc, IoStatus = IoSt,
                                   IoStatusInformation = Info\<rparr>) \<and>
             count_list (Log s') (QuotaCharged a) = count_list (Log s) (QuotaCharged a) + 1 \<and>
             count_list (Log s') (QuotaReturned a) = count_list (Log s) (QuotaReturned a))"
    using quota_inv_post [OF inv, of q k pool] by blast
next
  fix p m
  assume "Objects s p = Some (MiniObject m)"
  then show "\<exists>s'. IopFreeMiniPacket s p = Some s' \<and> quota_inv s' \<and> p \<notin> Charged s' \<and>
          (\<forall>a. count_list (Log s') (QuotaReturned a) =
                 count_list (Log s) (QuotaReturned a) +
                   (if a = p \<and> PacketType m = IopCompletionPacketQuota then 1 else 0)) \<and>
          (\<forall>a. count_list (Log s') (QuotaCharged a) = count_list (Log s) (QuotaCharged a))"
    by (rule quota_inv_free [OF inv])
next
  fix q k
  assume "Queues s q = Some k \<and> distinct (EntryListHead k) \<and>
           (\<forall>e\<in>set (EntryListHead k). \<exists>ob. Objects s e = Some ob \<and> valid_entry ob)"
  then show "\<exists>s'. IopDeleteIoCompletion s q = Some s' \<and> quota_inv s' \<and>
          Charged s' = Charged s - set (EntryListHead k) \<and>
          (\<forall>a. count_list (Log s') (QuotaReturned a) =
                 count_list (Log s) (QuotaReturned a) +
                   (if a \<in> set (EntryListHead k) \<and> a \<in> Charged s then 1 else 0)) \<and>
          (\<forall>a. count_list (Log s') (QuotaCharged a) = count_list (Log s) (QuotaCharged a))"
    using quota_inv_rundown [OF inv] by blast
next
  fix h Key Apc IoSt Info pool st s'
  assume "(\<forall>a. pool = Some a \<longrightarrow> a \<notin> dom (Objects s)) \<and>
       NtSetIoCompletion s h Key Apc IoSt Info pool = Some (st, s')"
  then show "quota_inv s'"
    using quota_inv_NtSetIoCompletion [OF inv] by blast
next
  fix h KeyPtr ApcPtr IosbPtr Timeout wait st s'
  assume "NtRemoveIoCompletion s h KeyPtr ApcPtr IosbPtr Timeout wait = Some (st, s')"
  then show "quota_inv s'"
    by (rule quota_inv_NtRemoveIoCompletion [OF inv])
next
  fix h cls info len rl st s'
  assume "NtQueryIoCompletion s h cls info len rl = Some (st, s')"
  then show "quota_inv s'"
    by (rule quota_inv_NtQueryIoCompletion [OF inv])
qed

theorem quota_symmetry_witness:
  "(\<exists>st s'. IoSetIoCompletion kernel0 100 1 2 0 3 True (Some 10) = Some (st, s') \<and>
      quota_inv s' \<and> 10 \<in> Charged s' \<and>
      count_list (Log s') (QuotaCharged 10) = 1 \<and> count_list (Log s') (QuotaReturned 10) = 0) \<and>
   (\<exists>s'. IopFreeMiniPacket kernel2_charged 10 = Some s' \<and> quota_inv s' \<and> 10 \<notin> Charged s' \<and>
      count_list (Log s') (QuotaCharged 10) = 1 \<and> count_list (Log s') (QuotaReturned 10) = 1) \<and>
   (\<exists>s'. IopDeleteIoCompletion kernel2_charged 100 = Some s' \<and> quota_inv s' \<and> Charged s' = {} \<and>
      count_list (Log s') (QuotaCharged 10) = 1 \<and> count_list (Log s') (QuotaReturned 10) = 1 \<and>
      count_list (Log s') (QuotaReturned 20) = 0)"
proof -
  have inv0: "quota_inv kernel0"
    by (simp add: quota_inv_def kernel0_def lookaside0_def)
  have inv2: "quota_inv kernel2_charged"
    by (simp add: quota_inv_def kernel2_charged_def kernel2_def kernel0_def lookaside0_def
        packet10_def)
  have f0: "Queues kernel0 100 = Some \<lparr>EntryListHead = [], CurrentCount = 0, MaximumCount = 2\<rparr>"
      "\<forall>a. Some 10 = Some a \<longrightarrow> a \<notin> dom (Objects kernel0)"
      "ListHead (LookasideP kernel0) = []" "ListHead (LookasideL kernel0) = []"
      "Log kernel0 = []"
    by (simp_all add: kernel0_def lookaside0_def)
  have f2: "Objects kernel2_charged 10 = Some (MiniObject packet10)"
      "Queues kernel2_charged 100 =
         Some \<lparr>EntryListHead = [10, 20], CurrentCount = 0, MaximumCount = 2\<rparr>"
      "Log kernel2_charged = [QuotaCharged 10]" "Charged kernel2_charged = {10}"
    by (simp_all add: kernel2_charged_def kernel2_def kernel0_def)
  have v2: "distinct (EntryListHead \<lparr>EntryListHead = [10, 20::addr], CurrentCount = 0,
                                    MaximumCount = 2\<rparr>)"
      "\<forall>e\<in>set (EntryListHead \<lparr>EntryListHead = [10, 20], CurrentCount = 0, MaximumCount = 2\<rparr>).
         \<exists>ob. Objects kernel2_charged e = Some ob \<and> valid_entry ob"
    by (simp_all add: kernel2_charged_def kernel2_def kernel0_def packet10_def)
  note post0 = quota_symmetry [OF inv0, THEN conjunct2, THEN conjunct2, THEN conjunct1]
  note free2 = quota_symmetry [OF inv2, THEN conjunct2, THEN conjunct2, THEN conjunct2,
      THEN conjunct1]
  note down2 = quota_symmetry [OF inv2, THEN conjunct2, THEN conjunct2, THEN conjunct2,
      THEN conjunct2, THEN conjunct1]
  from post0 have "\<exists>st s'. IoSetIoCompletion kernel0 100 1 2 0 3 True (Some 10) = Some (st, s') \<and>
          quota_inv s' \<and>
          (\<forall>a. ListHead (LookasideP kernel0) = [] \<and> ListHead (LookasideL kernel0) = [] \<and>
               Some 10 = Some a \<and> True \<longrightarrow>
             a \<in> Charged s' \<and>
             Objects s' a = Some (MiniObject \<lparr>PacketType = IopCompletionPacketQuota,
                                   KeyContext = 1, ApcContext = 2, IoStatus = 0,
                                   IoStatusInformation = 3\<rparr>) \<and>
             count_list (Log s') (QuotaCharged a) = count_list (Log kernel0) (QuotaCharged a) + 1 \<and>
             count_list (Log s') (QuotaReturned a) = count_list (Log kernel0) (QuotaReturned a))"
    using f0(1,2) by blast
  then have a: "\<exists>st s'. IoSetIoCompletion kernel0 100 1 2 0 3 True (Some 10) = Some (st, s') \<and>
      quota_inv s' \<and> 10 \<in> Charged s' \<and>
      count_list (Log s') (QuotaCharged 10) = 1 \<and> count_list (Log s') (QuotaReturned 10) = 0"
    using f0(3,4,5) by (elim exE conjE) (intro exI conjI, assumption+, simp_all)
  from free2 have "\<exists>s'. IopFreeMiniPacket kernel2_charged 10 = Some s' \<and> quota_inv s' \<and>
          10 \<notin> Charged s' \<and>
          (\<forall>a. count_list (Log s') (QuotaReturned a) =
                 count_list (Log kernel2_charged) (QuotaReturned a) +
                   (if a = 10 \<and> PacketType packet10 = IopCompletionPacketQuota then 1 else 0)) \<and>
          (\<forall>a. count_list (Log s') (QuotaCharged a) =
                 count_list (Log kernel2_charged) (QuotaCharged a))"
    using f2(1) by blast
  then have b: "\<exists>s'. IopFreeMiniPacket kernel2_charged 10 = Some s' \<and> quota_inv s' \<and>
      10 \<notin> Charged s' \<and>
      count_list (Log s') (QuotaCharged 10) = 1 \<and> count_list (Log s') (QuotaReturned 10) = 1"
    using f2(3) by (elim exE conjE) (intro exI conjI, assumption+, simp_all add: packet10_def)
  from down2 have "\<exists>s'. IopDeleteIoCompletion kernel2_charged 100 = Some s' \<and> quota_inv s' \<and>
          Charged s' = Charged kernel2_charged -
            set (EntryListHead \<lparr>EntryListHead = [10, 20], CurrentCount = 0, MaximumCount = 2\<rparr>) \<and>
          (\<forall>a. count_list (Log s') (QuotaReturned a) =
                 count_list (Log kernel2_charged) (QuotaReturned a) +
                   (if a \<in> set (EntryListHead \<lparr>EntryListHead = [10, 20], CurrentCount = 0,
                                                 MaximumCount = 2\<rparr>) \<and>
                       a \<in> Charged kernel2_charged then 1 else 0)) \<and>
          (\<forall>a. count_list (Log s') (QuotaCharged a) =
                 count_list (Log kernel2_charged) (QuotaCharged a))"
    using f2(2) v2 by blast
  then have c: "\<exists>s'. IopDeleteIoCompletion kernel2_charged 100 = Some s' \<and> quota_inv s' \<and>
      Charged s' = {} \<and>
      count_list (Log s') (QuotaCharged 10) = 1 \<and> count_list (Log s') (QuotaReturned 10) = 1 \<and>
      count_list (Log s') (QuotaReturned 20) = 0"
    using f2(3,4) by (elim exE conjE) (intro exI conjI, assumption+, simp_all)
  from a b c show ?thesis by blast
qed

end
